theory Spec2Isabelle
  imports Complex_Main "HOL-Library.Word"
begin


section \<open>JavaScript values\<close>

text \<open>
  The program computes with JavaScript numbers. They are modelled as exact real numbers
  extended with the two infinities and NaN: arithmetic on finite values is exact (no
  rounding, no overflow, no signed zero), and the special values behave as ECMAScript
  prescribes, so that every place where the code relies on \<open>Infinity\<close> or
  \<open>NaN\<close> (a division by zero, a comparison with NaN, \<open>isNaN\<close>) is
  a branch of the model.
\<close>

datatype jsnum = Num real | PosInf | NegInf | NaN

datatype error =
    TypeError
  | RangeError
  | ProjectionError
  | LibraryError

fun isNaN :: "jsnum \<Rightarrow> bool" where
  "isNaN NaN = True"
| "isNaN _ = False"

fun isFinite :: "jsnum \<Rightarrow> bool" where
  "isFinite (Num _) = True"
| "isFinite _ = False"

fun jneg :: "jsnum \<Rightarrow> jsnum" where
  "jneg (Num a) = Num (- a)"
| "jneg PosInf = NegInf"
| "jneg NegInf = PosInf"
| "jneg NaN = NaN"

fun jadd :: "jsnum \<Rightarrow> jsnum \<Rightarrow> jsnum" where
  "jadd (Num a) (Num b) = Num (a + b)"
| "jadd NaN _ = NaN"
| "jadd _ NaN = NaN"
| "jadd PosInf NegInf = NaN"
| "jadd NegInf PosInf = NaN"
| "jadd PosInf _ = PosInf"
| "jadd _ PosInf = PosInf"
| "jadd NegInf _ = NegInf"
| "jadd _ NegInf = NegInf"

text \<open>The sign of an infinite product or quotient follows the signs of the operands.\<close>

definition signed_inf :: "bool \<Rightarrow> jsnum" where
  "signed_inf positive = (if positive then PosInf else NegInf)"

fun jmul :: "jsnum \<Rightarrow> jsnum \<Rightarrow> jsnum" where
  "jmul (Num a) (Num b) = Num (a * b)"
| "jmul NaN _ = NaN"
| "jmul _ NaN = NaN"
| "jmul (Num a) PosInf = (if a = 0 then NaN else signed_inf (0 < a))"
| "jmul (Num a) NegInf = (if a = 0 then NaN else signed_inf (a < 0))"
| "jmul PosInf (Num b) = (if b = 0 then NaN else signed_inf (0 < b))"
| "jmul NegInf (Num b) = (if b = 0 then NaN else signed_inf (b < 0))"
| "jmul PosInf PosInf = PosInf"
| "jmul NegInf NegInf = PosInf"
| "jmul PosInf NegInf = NegInf"
| "jmul NegInf PosInf = NegInf"

fun jdiv :: "jsnum \<Rightarrow> jsnum \<Rightarrow> jsnum" where
  "jdiv (Num a) (Num b) =
     (if b \<noteq> 0 then Num (a / b)
      else if a = 0 then NaN
      else signed_inf (0 < a))"
| "jdiv NaN _ = NaN"
| "jdiv _ NaN = NaN"
| "jdiv (Num a) PosInf = Num 0"
| "jdiv (Num a) NegInf = Num 0"
| "jdiv PosInf (Num b) = signed_inf (0 \<le> b)"
| "jdiv NegInf (Num b) = signed_inf (b < 0)"
| "jdiv PosInf PosInf = NaN"
| "jdiv PosInf NegInf = NaN"
| "jdiv NegInf PosInf = NaN"
| "jdiv NegInf NegInf = NaN"

text \<open>Comparisons: every comparison with NaN is false.\<close>

fun jlt :: "jsnum \<Rightarrow> jsnum \<Rightarrow> bool" where
  "jlt (Num a) (Num b) = (a < b)"
| "jlt NaN _ = False"
| "jlt _ NaN = False"
| "jlt _ NegInf = False"
| "jlt PosInf _ = False"
| "jlt NegInf _ = True"
| "jlt _ PosInf = True"

fun jle :: "jsnum \<Rightarrow> jsnum \<Rightarrow> bool" where
  "jle (Num a) (Num b) = (a \<le> b)"
| "jle NaN _ = False"
| "jle _ NaN = False"
| "jle NegInf _ = True"
| "jle _ PosInf = True"
| "jle _ NegInf = False"
| "jle PosInf _ = False"

text \<open>Strict equality \<open>===\<close> on numbers: NaN is not equal to itself.\<close>

fun jeq :: "jsnum \<Rightarrow> jsnum \<Rightarrow> bool" where
  "jeq NaN _ = False"
| "jeq _ NaN = False"
| "jeq a b = (a = b)"

fun jabs :: "jsnum \<Rightarrow> jsnum" where
  "jabs (Num a) = Num \<bar>a\<bar>"
| "jabs PosInf = PosInf"
| "jabs NegInf = PosInf"
| "jabs NaN = NaN"

fun jsign :: "jsnum \<Rightarrow> jsnum" where
  "jsign (Num a) = Num (sgn a)"
| "jsign PosInf = Num 1"
| "jsign NegInf = Num (- 1)"
| "jsign NaN = NaN"

fun jfloor :: "jsnum \<Rightarrow> jsnum" where
  "jfloor (Num a) = Num (of_int \<lfloor>a\<rfloor>)"
| "jfloor x = x"

fun jmin :: "jsnum \<Rightarrow> jsnum \<Rightarrow> jsnum" where
  "jmin NaN _ = NaN"
| "jmin _ NaN = NaN"
| "jmin a b = (if jle a b then a else b)"

fun jsqrt :: "jsnum \<Rightarrow> jsnum" where
  "jsqrt (Num a) = (if a < 0 then NaN else Num (sqrt a))"
| "jsqrt PosInf = PosInf"
| "jsqrt NegInf = NaN"
| "jsqrt NaN = NaN"

fun jsin :: "jsnum \<Rightarrow> jsnum" where
  "jsin (Num a) = Num (sin a)"
| "jsin _ = NaN"

fun jcos :: "jsnum \<Rightarrow> jsnum" where
  "jcos (Num a) = Num (cos a)"
| "jcos _ = NaN"

text \<open>
  The tangent has poles where the cosine vanishes; there the model returns the infinity
  of the matching sign, the limit from inside the principal branch.
\<close>

fun jtan :: "jsnum \<Rightarrow> jsnum" where
  "jtan (Num a) = (if cos a = 0 then signed_inf (0 < sin a) else Num (tan a))"
| "jtan _ = NaN"

fun jatan :: "jsnum \<Rightarrow> jsnum" where
  "jatan (Num a) = Num (arctan a)"
| "jatan PosInf = Num (pi / 2)"
| "jatan NegInf = Num (- (pi / 2))"
| "jatan NaN = NaN"

text \<open>\<open>Math.atan2(y, x)\<close> on finite arguments, by quadrant.\<close>

definition atan2 :: "real \<Rightarrow> real \<Rightarrow> real" where
  "atan2 y x =
     (if 0 < x then arctan (y / x)
      else if x < 0 then (if 0 \<le> y then arctan (y / x) + pi else arctan (y / x) - pi)
      else if 0 < y then pi / 2
      else if y < 0 then - (pi / 2)
      else 0)"

fun jatan2 :: "jsnum \<Rightarrow> jsnum \<Rightarrow> jsnum" where
  "jatan2 (Num y) (Num x) = Num (atan2 y x)"
| "jatan2 NaN _ = NaN"
| "jatan2 _ NaN = NaN"
| "jatan2 (Num y) PosInf = Num 0"
| "jatan2 (Num y) NegInf = Num (if 0 \<le> y then pi else - pi)"
| "jatan2 PosInf (Num x) = Num (pi / 2)"
| "jatan2 NegInf (Num x) = Num (- (pi / 2))"
| "jatan2 PosInf PosInf = Num (pi / 4)"
| "jatan2 PosInf NegInf = Num (3 * pi / 4)"
| "jatan2 NegInf PosInf = Num (- (pi / 4))"
| "jatan2 NegInf NegInf = Num (- (3 * pi / 4))"

text \<open>
  The remainder \<open>a % b\<close>: it has the sign of the dividend; it is NaN for an infinite
  dividend or a zero divisor, and the dividend itself for an infinite divisor.
\<close>

fun jrem :: "jsnum \<Rightarrow> jsnum \<Rightarrow> jsnum" where
  "jrem (Num a) (Num b) =
     (if b = 0 then NaN
      else Num (a - b * of_int (if 0 \<le> a / b then \<lfloor>a / b\<rfloor> else \<lceil>a / b\<rceil>)))"
| "jrem NaN _ = NaN"
| "jrem _ NaN = NaN"
| "jrem PosInf _ = NaN"
| "jrem NegInf _ = NaN"
| "jrem (Num a) PosInf = Num a"
| "jrem (Num a) NegInf = Num a"

text \<open>\<open>x || d\<close> on a number: \<open>d\<close> when \<open>x\<close> is falsy, that is 0 or NaN.\<close>

definition or_default :: "jsnum \<Rightarrow> jsnum \<Rightarrow> jsnum" where
  "or_default x d = (if isNaN x \<or> jeq x (Num 0) then d else x)"

text \<open>
  Reading a number from an array of numbers for use in arithmetic: \<open>undefined\<close>
  converts to NaN.
\<close>

definition nth_num :: "jsnum list \<Rightarrow> int \<Rightarrow> jsnum" where
  "nth_num xs i = (if 0 \<le> i \<and> i < int (length xs) then xs ! nat i else NaN)"

text \<open>
  The text of a number, as string concatenation produces it. Integers below \<open>10^21\<close>
  are written with all their decimal digits; these are the only numbers that
  \<open>UTM.zone\<close> returns for a longitude of the globe. For any other finite number the
  integer part stands for the text.
\<close>

fun digits :: "nat \<Rightarrow> nat \<Rightarrow> string" where
  "digits 0 n = []"
| "digits (Suc fuel) n =
     (if n < 10 then [char_of (48 + n)]
      else digits fuel (n div 10) @ [char_of (48 + n mod 10)])"

fun number_text :: "jsnum \<Rightarrow> string" where
  "number_text NaN = ''NaN''"
| "number_text PosInf = ''Infinity''"
| "number_text NegInf = ''-Infinity''"
| "number_text (Num a) =
     (if a < 0 then ''-'' else []) @ digits (Suc (nat \<lfloor>\<bar>a\<bar>\<rfloor>)) (nat \<lfloor>\<bar>a\<bar>\<rfloor>)"

text \<open>
  The infix operators on JavaScript numbers: \<open>a - b\<close> is \<open>a + (-b)\<close>, and
  \<open>a > b\<close>, \<open>a \<ge> b\<close> are \<open>b < a\<close>, \<open>b \<le> a\<close>. Only the notation is
  shared with HOL's numbers: none of the algebraic laws is assumed.
\<close>

instantiation jsnum :: "{plus, minus, uminus, times, inverse, ord}"
begin

definition plus_jsnum :: "jsnum \<Rightarrow> jsnum \<Rightarrow> jsnum" where
  [simp]: "plus_jsnum a b = jadd a b"

definition uminus_jsnum :: "jsnum \<Rightarrow> jsnum" where
  [simp]: "uminus_jsnum a = jneg a"

definition minus_jsnum :: "jsnum \<Rightarrow> jsnum \<Rightarrow> jsnum" where
  [simp]: "minus_jsnum a b = jadd a (jneg b)"

definition times_jsnum :: "jsnum \<Rightarrow> jsnum \<Rightarrow> jsnum" where
  [simp]: "times_jsnum a b = jmul a b"

definition divide_jsnum :: "jsnum \<Rightarrow> jsnum \<Rightarrow> jsnum" where
  [simp]: "divide_jsnum a b = jdiv a b"

definition inverse_jsnum :: "jsnum \<Rightarrow> jsnum" where
  [simp]: "inverse_jsnum a = jdiv (Num 1) a"

definition less_jsnum :: "jsnum \<Rightarrow> jsnum \<Rightarrow> bool" where
  [simp]: "less_jsnum a b = jlt a b"

definition less_eq_jsnum :: "jsnum \<Rightarrow> jsnum \<Rightarrow> bool" where
  [simp]: "less_eq_jsnum a b = jle a b"

instance ..

end

text \<open>
  Reading an array at an index: \<open>None\<close> is JavaScript's \<open>undefined\<close>, the
  value of an index outside the array.
\<close>

definition js_nth :: "'a list \<Rightarrow> int \<Rightarrow> 'a option" where
  "js_nth xs i = (if 0 \<le> i \<and> i < int (length xs) then Some (xs ! nat i) else None)"

text \<open>Sequencing of steps that may throw.\<close>

definition thenE :: "error + 'a \<Rightarrow> ('a \<Rightarrow> error + 'b) \<Rightarrow> error + 'b" where
  "thenE m f = (case m of Inl e \<Rightarrow> Inl e | Inr x \<Rightarrow> f x)"

text \<open>
  A JavaScript string is a sequence of UTF-16 code units. \<open>js_string\<close> gives the
  code units of a literal of ASCII characters.
\<close>

type_synonym jsstring = "16 word list"

definition js_string :: "string \<Rightarrow> jsstring" where
  "js_string s = map (\<lambda>ch. of_nat (of_char ch)) s"

text \<open>A point is a three-element array of numbers, read at the indices 0, 1 and 2.\<close>

type_synonym vec3 = "jsnum \<times> jsnum \<times> jsnum"

fun c0 :: "vec3 \<Rightarrow> jsnum" where
  "c0 (a, b, c) = a"

fun c1 :: "vec3 \<Rightarrow> jsnum" where
  "c1 (a, b, c) = b"

fun c2 :: "vec3 \<Rightarrow> jsnum" where
  "c2 (a, b, c) = c"

section \<open>Configuration\<close>

text \<open>
  The options object of \<open>ModelGenerator.generate\<close>, with the fields that
  \<open>collectOptions\<close> builds.
\<close>

record options =
  buffer :: jsnum
  vertical :: jsnum
  bedx :: jsnum
  bedy :: jsnum
  base :: jsnum
  zcut :: bool
  zoverride :: bool
  zconstant :: jsnum
  regionfit :: bool
  region_minx :: jsnum
  region_maxx :: jsnum
  region_miny :: jsnum
  region_maxy :: jsnum
  shapetype :: int
  projtype :: int
  projection :: jsstring
  markerInterval :: jsnum
  smoothtype :: int
  smoothspan :: jsnum

definition SHAPE_MAP :: int where "SHAPE_MAP = 0"
definition SHAPE_LINEAR :: int where "SHAPE_LINEAR = 1"
definition SHAPE_RING :: int where "SHAPE_RING = 2"

definition PROJ_GOOGLE :: int where "PROJ_GOOGLE = 0"
definition PROJ_CUSTOM :: int where "PROJ_CUSTOM = 1"
definition PROJ_UTM :: int where "PROJ_UTM = 2"

section \<open>Geodesy: Vincenty's inverse formula\<close>

text \<open>The WGS84 ellipsoid.\<close>

definition wgs84_a :: real where
  "wgs84_a = 6378137"

definition wgs84_b :: real where
  "wgs84_b = 6356752.314245"

definition wgs84_f :: real where
  "wgs84_f = 1 / 298.257223563"

definition toRad :: "jsnum \<Rightarrow> jsnum" where
  "toRad deg = deg * Num pi / Num 180"



text \<open>
  The variables that the \<open>do \<dots> while\<close> loop of \<open>distVincenty\<close> leaves behind
  for the code after it.
\<close>

record vincenty_vars =
  sinSigma :: jsnum
  cosSigma :: jsnum
  sigma :: jsnum
  cosSqAlpha :: jsnum
  cos2SigmaM :: jsnum
  iterLimit :: int

text \<open>
  The loop. \<open>Inl v\<close>: the function returned \<open>v\<close> from inside the loop (the
  coincident-points exit); \<open>Inr vars\<close>: the loop ended. The body runs first; the
  condition \<open>Math.abs(lambda - lambdaP) > 1e-12 && --iterLimit > 0\<close> decrements
  \<open>iterLimit\<close> only when its first conjunct holds.
\<close>

function vincenty_loop ::
  "jsnum \<Rightarrow> jsnum \<Rightarrow> jsnum \<Rightarrow> jsnum \<Rightarrow> jsnum \<Rightarrow> int \<Rightarrow> jsnum \<Rightarrow> jsnum + vincenty_vars" where
  "vincenty_loop L sinU1 cosU1 sinU2 cosU2 limit lambda =
     (let f = Num wgs84_f;
          sinLambda = jsin lambda;
          cosLambda = jcos lambda;
          sinSigma = jsqrt
            ((cosU2 * sinLambda) * (cosU2 * sinLambda) +
             (cosU1 * sinU2 - sinU1 * cosU2 * cosLambda) *
             (cosU1 * sinU2 - sinU1 * cosU2 * cosLambda))
      in if jeq sinSigma (Num 0) then Inl (Num 0)
         else
           let cosSigma = sinU1 * sinU2 + cosU1 * cosU2 * cosLambda;
               sigma = jatan2 sinSigma cosSigma;
               sinAlpha = cosU1 * cosU2 * sinLambda / sinSigma;
               cosSqAlpha = Num 1 - sinAlpha * sinAlpha;
               cos2SigmaM0 = cosSigma - Num 2 * sinU1 * sinU2 / cosSqAlpha;
               cos2SigmaM = (if isNaN cos2SigmaM0 then Num 0 else cos2SigmaM0);
               C = f / Num 16 * cosSqAlpha * (Num 4 + f * (Num 4 - Num 3 * cosSqAlpha));
               lambdaP = lambda;
               lambda' = L + (Num 1 - C) * f * sinAlpha *
                 (sigma + C * sinSigma *
                    (cos2SigmaM + C * cosSigma *
                       (Num (- 1) + Num 2 * cos2SigmaM * cos2SigmaM)));
               vars = \<lparr>sinSigma = sinSigma, cosSigma = cosSigma, sigma = sigma,
                       cosSqAlpha = cosSqAlpha, cos2SigmaM = cos2SigmaM, iterLimit = limit\<rparr>
           in if jabs (lambda' - lambdaP) > Num (1 / 10 ^ 12) then
                (if limit - 1 > 0
                 then vincenty_loop L sinU1 cosU1 sinU2 cosU2 (limit - 1) lambda'
                 else Inr (vars\<lparr>iterLimit := limit - 1\<rparr>))
              else Inr vars)"
  by pat_completeness auto
termination
  by (relation "measure (\<lambda>(L, sinU1, cosU1, sinU2, cosU2, limit, lambda). nat limit)") auto

text \<open>\<open>distVincenty(lat1, lon1, lat2, lon2)\<close>, in metres; NaN when the loop did not converge.\<close>

definition distVincenty :: "jsnum \<Rightarrow> jsnum \<Rightarrow> jsnum \<Rightarrow> jsnum \<Rightarrow> jsnum" where
  "distVincenty lat1 lon1 lat2 lon2 =
     (let a = Num wgs84_a; b = Num wgs84_b; f = Num wgs84_f;
          L = toRad (lon2 - lon1);
          U1 = jatan ((Num 1 - f) * jtan (toRad lat1));
          U2 = jatan ((Num 1 - f) * jtan (toRad lat2));
          sinU1 = jsin U1; cosU1 = jcos U1;
          sinU2 = jsin U2; cosU2 = jcos U2
      in case vincenty_loop L sinU1 cosU1 sinU2 cosU2 100 L of
           Inl v \<Rightarrow> v
         | Inr vars \<Rightarrow>
             if iterLimit vars = 0 then NaN
             else
               let uSq = cosSqAlpha vars * (a * a - b * b) / (b * b);
                   A = Num 1 + uSq / Num 16384 *
                         (Num 4096 + uSq * (Num (- 768) + uSq * (Num 320 - Num 175 * uSq)));
                   B = uSq / Num 1024 *
                         (Num 256 + uSq * (Num (- 128) + uSq * (Num 74 - Num 47 * uSq)));
                   deltaSigma = B * sinSigma vars *
                     (cos2SigmaM vars + B / Num 4 *
                        (cosSigma vars *
                           (Num (- 1) + Num 2 * cos2SigmaM vars * cos2SigmaM vars) -
                         B / Num 6 * cos2SigmaM vars *
                           (Num (- 3) + Num 4 * sinSigma vars * sinSigma vars) *
                           (Num (- 3) + Num 4 * cos2SigmaM vars * cos2SigmaM vars)))
               in b * A * (sigma vars - deltaSigma))"


section \<open>PathSegment: vertices and faces of the ribbon\<close>

type_synonym face = "int \<times> int \<times> int"

text \<open>\<open>PathSegment.points(a, v, z)\<close>: four vertices of one cross-section.\<close>

definition PathSegment_points ::
  "vec3 list \<Rightarrow> (jsnum \<times> jsnum) \<times> (jsnum \<times> jsnum) \<Rightarrow> jsnum \<Rightarrow> vec3 list" where
  "PathSegment_points a v z =
     a @ [(fst (fst v), snd (fst v), Num 0),
          (fst (snd v), snd (snd v), Num 0),
          (fst (fst v), snd (fst v), z),
          (fst (snd v), snd (snd v), z)]"

definition firstFace :: "face list \<Rightarrow> face list" where
  "firstFace a = a @ [(0, 2, 3), (3, 1, 0)]"

definition lastFace :: "face list \<Rightarrow> int \<Rightarrow> face list" where
  "lastFace a s =
     (let i = (s - 1) * 4
      in a @ [(i + 2, i + 1, i + 3), (i + 2, i + 0, i + 1)])"

definition PathSegment_faces :: "face list \<Rightarrow> int \<Rightarrow> face list" where
  "PathSegment_faces a s =
     (if s = 0 then firstFace a
      else
        let i = (s - 1) * 4
        in a @ [(i + 2, i + 6, i + 3), (i + 3, i + 6, i + 7),
                (i + 3, i + 7, i + 5), (i + 3, i + 5, i + 1),
                (i + 6, i + 2, i + 0), (i + 6, i + 0, i + 4),
                (i + 0, i + 5, i + 4), (i + 0, i + 1, i + 5)])"

section \<open>The path builder\<close>

text \<open>A marker of the artifact: fitted location and orientation.\<close>

record marker =
  location :: vec3
  orientation :: jsnum

text \<open>
  \<open>ModelCode\<close>: the constructor stores the three arrays and the options. The
  text fields it formats from them (\<open>pointsStr\<close>, \<open>facesStr\<close>,
  \<open>markersStr\<close>) are read only by the JSCAD and OpenSCAD emitters and are left
  out.
\<close>

record ModelCode =
  rawPoints :: "vec3 list"
  rawFaces :: "face list"
  rawMarkers :: "marker list"
  markerWidth :: jsnum

definition vectorAngle :: "vec3 \<Rightarrow> vec3 \<Rightarrow> jsnum" where
  "vectorAngle a b = jatan2 (c1 b - c1 a) (c0 b - c0 a)"

definition isAcute :: "jsnum \<Rightarrow> bool" where
  "isAcute angle =
     (jabs angle > Num pi / Num 2 \<and> jabs angle < Num 3 * Num pi / Num 2)"

text \<open>
  \<open>segmentAngle(i)\<close>: the heading of the segment leaving point \<open>i\<close>; at the
  last point, that of the segment before. Reading a coordinate of a point that is
  \<open>undefined\<close> throws a TypeError.
\<close>

function segmentAngle :: "vec3 list \<Rightarrow> int \<Rightarrow> error + jsnum" where
  "segmentAngle pts i =
     (if i + 1 = int (length pts) then segmentAngle pts (i - 1)
      else case (js_nth pts i, js_nth pts (i + 1)) of
             (Some a, Some b) \<Rightarrow> Inr (vectorAngle a b)
           | _ \<Rightarrow> Inl TypeError)"
  by pat_completeness auto
termination
  by (relation "measure (\<lambda>(pts, i). if i + 1 = int (length pts) then 1 else 0)") auto

definition jointPoints ::
  "options \<Rightarrow> vec3 \<Rightarrow> jsnum \<Rightarrow> jsnum \<Rightarrow> (jsnum \<times> jsnum) \<times> (jsnum \<times> jsnum)" where
  "jointPoints opts p rel avga =
     (let jointr0 = buffer opts / jcos (rel / Num 2);
          jointr = (if jabs jointr0 > buffer opts * Num 2
                    then jsign jointr0 * buffer opts * Num 2
                    else jointr0);
          lx = c0 p + jointr * jcos (avga + Num pi / Num 2);
          ly = c1 p + jointr * jsin (avga + Num pi / Num 2);
          rx = c0 p + jointr * jcos (avga - Num pi / Num 2);
          ry = c1 p + jointr * jsin (avga - Num pi / Num 2)
      in ((lx, ly), (rx, ry)))"

text \<open>
  The state of the station loop of \<open>_processPath\<close>: the heading of the last accepted
  station, the arrays built so far and the counter \<open>s\<close> of accepted stations.
\<close>

record path_state =
  lastAngle :: jsnum
  vertices :: "vec3 list"
  faces :: "face list"
  stations :: nat

text \<open>
  The test before \<open>continue\<close>: the turn at station \<open>i\<close> is acute,
  \<open>i\<close> is not the last station, and the turn at the next station is acute too.
\<close>

definition acute_run :: "vec3 list \<Rightarrow> nat \<Rightarrow> jsnum \<Rightarrow> jsnum \<Rightarrow> error + bool" where
  "acute_run pts i angle relAngle =
     (if isAcute relAngle \<and> i + 1 < length pts then
        (case segmentAngle pts (int i + 1) of
           Inl e \<Rightarrow> Inl e
         | Inr next \<Rightarrow> Inr (isAcute (next - angle)))
      else Inr False)"

text \<open>
  An accepted station: four vertices from \<open>PathSegment.points\<close>, the faces of
  \<open>PathSegment.faces(faces, s)\<close>, then \<open>s++\<close> and \<open>lastAngle = angle\<close>.
\<close>

definition accept_station ::
  "options \<Rightarrow> vec3 \<Rightarrow> jsnum \<Rightarrow> jsnum \<Rightarrow> jsnum \<Rightarrow> path_state \<Rightarrow> path_state" where
  "accept_station opts p relAngle jointAngle angle st =
     \<lparr>lastAngle = angle,
      vertices = PathSegment_points (vertices st) (jointPoints opts p relAngle jointAngle) (c2 p),
      faces = PathSegment_faces (faces st) (int (stations st)),
      stations = stations st + 1\<rparr>"

text \<open>
  The loop \<open>for (i = 0, s = 0; i < outputPoints.length; i++)\<close>. A station in an acute
  run is skipped (only \<open>lastAngle\<close> may have been set, at \<open>i = 0\<close>); every other
  station is accepted.
\<close>

function processPath_loop ::
  "options \<Rightarrow> vec3 list \<Rightarrow> nat \<Rightarrow> path_state \<Rightarrow> error + path_state" where
  "processPath_loop opts pts i st =
     (if i < length pts then
        (case segmentAngle pts (int i) of
           Inl e \<Rightarrow> Inl e
         | Inr angle \<Rightarrow>
            (let last = (if i = 0 then angle else lastAngle st);
                 relAngle = angle - last;
                 jointAngle = relAngle / Num 2 + last
             in case acute_run pts i angle relAngle of
                  Inl e \<Rightarrow> Inl e
                | Inr True \<Rightarrow> processPath_loop opts pts (i + 1) (st\<lparr>lastAngle := last\<rparr>)
                | Inr False \<Rightarrow>
                    processPath_loop opts pts (i + 1)
                      (accept_station opts (pts ! i) relAngle jointAngle angle st)))
      else Inr st)"
  by pat_completeness auto
termination
  by (relation "measure (\<lambda>(opts, pts, i, st). length pts - i)") auto

text \<open>The state before the first station; \<open>lastAngle\<close> is not yet assigned.\<close>

definition init_path_state :: path_state where
  "init_path_state = \<lparr>lastAngle = NaN, vertices = [], faces = [], stations = 0\<rparr>"

text \<open>
  \<open>_processPath\<close>: the station loop, the end cap at \<open>vertices.length / 4\<close> (the
  vertices come in groups of four, so the quotient is exact) and the artifact.
\<close>

definition processPath :: "options \<Rightarrow> vec3 list \<Rightarrow> marker list \<Rightarrow> error + ModelCode" where
  "processPath opts pts markers =
     (case processPath_loop opts pts 0 init_path_state of
        Inl e \<Rightarrow> Inl e
      | Inr st \<Rightarrow>
          Inr \<lparr>rawPoints = vertices st,
               rawFaces = lastFace (faces st) (int (length (vertices st)) div 4),
               rawMarkers = markers,
               markerWidth = Num 2 * buffer opts + Num 2\<rparr>)"

text \<open>The number of stations accepted by the loop, zero when it throws.\<close>

definition accepted_stations :: "options \<Rightarrow> vec3 list \<Rightarrow> nat" where
  "accepted_stations opts pts =
     (case processPath_loop opts pts 0 init_path_state of
        Inl e \<Rightarrow> 0
      | Inr st \<Rightarrow> stations st)"

section \<open>Bounds and fitting helpers\<close>

record bounds =
  minx :: jsnum
  maxx :: jsnum
  miny :: jsnum
  maxy :: jsnum
  minz :: jsnum
  maxz :: jsnum

definition Bounds_new :: "vec3 \<Rightarrow> bounds" where
  "Bounds_new xyz =
     \<lparr>minx = c0 xyz, maxx = c0 xyz, miny = c1 xyz, maxy = c1 xyz,
      minz = c2 xyz, maxz = c2 xyz\<rparr>"

definition Bounds_update :: "bounds \<Rightarrow> vec3 \<Rightarrow> bounds" where
  "Bounds_update b xyz =
     \<lparr>minx = (if c0 xyz < minx b then c0 xyz else minx b),
      maxx = (if c0 xyz > maxx b then c0 xyz else maxx b),
      miny = (if c1 xyz < miny b then c1 xyz else miny b),
      maxy = (if c1 xyz > maxy b then c1 xyz else maxy b),
      minz = (if c2 xyz < minz b then c2 xyz else minz b),
      maxz = (if c2 xyz > maxz b then c2 xyz else maxz b)\<rparr>"

definition Bounds_center :: "bounds \<Rightarrow> jsnum \<times> jsnum" where
  "Bounds_center b = ((minx b + maxx b) / Num 2, (miny b + maxy b) / Num 2)"

definition calcOffsets :: "bounds \<Rightarrow> bool \<Rightarrow> vec3" where
  "calcOffsets b zcut_flag =
     (let xy = Bounds_center b;
          zoffset = (if zcut_flag = True \<or> minz b \<le> Num 0
                     then jfloor (minz b - Num 1) else Num 0)
      in (fst xy, snd xy, zoffset))"

text \<open>The printable area left after the buffer: \<open>ctx.bed\<close>.\<close>

record bed =
  bed_x :: jsnum
  bed_y :: jsnum

definition calcScale :: "bed \<Rightarrow> jsnum \<Rightarrow> jsnum \<Rightarrow> jsnum" where
  "calcScale bd xextent yextent =
     (let xscale = bed_x bd / xextent;
          yscale = bed_y bd / yextent
      in jmin xscale yscale)"

definition scaleBounds :: "bounds \<Rightarrow> bed \<Rightarrow> jsnum" where
  "scaleBounds b bd = calcScale bd (maxx b - minx b) (maxy b - miny b)"

section \<open>Projection\<close>

text \<open>
  The proj4 library is not part of the repository. It is the parameter \<open>proj4\<close>: for
  a definition string it yields the forward transform of the projection, or nothing when
  it rejects the definition (the library then throws). A transform is taken as a total
  function on coordinate pairs.
\<close>

type_synonym transform = "jsnum \<times> jsnum \<Rightarrow> jsnum \<times> jsnum"

type_synonym proj4 = "jsstring \<Rightarrow> transform option"

definition PointProjector_linear :: "vec3 \<Rightarrow> jsnum \<Rightarrow> jsnum \<Rightarrow> vec3" where
  "PointProjector_linear v distRatio total_length = (Num 0, distRatio * total_length, c2 v)"

definition PointProjector_ring :: "vec3 \<Rightarrow> jsnum \<Rightarrow> jsnum \<Rightarrow> vec3" where
  "PointProjector_ring v distRatio radius =
     (radius * jcos (Num 2 * Num pi * distRatio),
      radius * jsin (Num 2 * Num pi * distRatio),
      c2 v)"

definition PointProjector_project :: "transform \<Rightarrow> vec3 \<Rightarrow> vec3" where
  "PointProjector_project forward v =
     (let xy = forward (c0 v, c1 v) in (fst xy, snd xy, c2 v))"

text \<open>\<open>UTM.proj(lat, lon)\<close>: the proj4 definition of the UTM zone of a point.\<close>

definition UTM_hemi :: "jsnum \<Rightarrow> string" where
  "UTM_hemi lat = (if lat < Num 0 then '' +south'' else [])"

definition UTM_zone :: "jsnum \<Rightarrow> jsnum" where
  "UTM_zone lon =
     (let lon1 = lon + Num 180;
          lon2 = lon1 - jrem lon1 (Num 6);
          lon3 = lon2 / Num 6
      in lon3 + Num 1)"

definition UTM_proj :: "jsnum \<Rightarrow> jsnum \<Rightarrow> jsstring" where
  "UTM_proj lat lon =
     js_string
       (''+proj=utm +zone='' @ number_text (UTM_zone lon) @ UTM_hemi lat @
        '' +ellps=WGS84 +datum=WGS84 +units=m +no_defs'')"

section \<open>The generation context\<close>

text \<open>
  \<open>ctx\<close>, the accumulator of one generation. Its field \<open>options\<close> is a reference
  to the caller's options object and is kept apart, in the caller's state below; the
  fields that start as \<open>null\<close> are optional values. \<open>projector\<close> is the global
  \<open>PointProjector.projection\<close>.
\<close>

record ctx =
  ctx_bed :: bed
  ll :: "vec3 list"
  d :: "jsnum list"
  distance :: jsnum
  ringRadius :: jsnum
  smoothTotal :: jsnum
  projectedPoints :: "vec3 list"
  outputPoints :: "vec3 list"
  markers :: "marker list"
  ctx_bounds :: "bounds option"
  ctx_offset :: "vec3 option"
  ctx_scale :: "jsnum option"
  projector :: "transform option"

text \<open>\<open>_projectPoint(ctx, point, cdr)\<close>; an uninitialised projector throws.\<close>

definition projectPoint :: "options \<Rightarrow> ctx \<Rightarrow> vec3 \<Rightarrow> jsnum \<Rightarrow> error + vec3" where
  "projectPoint opts c point cdr =
     (if shapetype opts = SHAPE_LINEAR then Inr (PointProjector_linear point cdr (distance c))
      else if shapetype opts = SHAPE_RING then Inr (PointProjector_ring point cdr (ringRadius c))
      else case projector c of
             None \<Rightarrow> Inl TypeError
           | Some forward \<Rightarrow> Inr (PointProjector_project forward point))"

section \<open>The track scanner\<close>

text \<open>A raw marker: interpolated point, cumulative distance, index of its segment.\<close>

record marker_obj =
  loc :: vec3
  pos :: jsnum
  seg :: nat

text \<open>The local variables of the first loop of \<open>_scanPoints\<close>.\<close>

record scan_state =
  lastpt :: vec3
  minLon :: jsnum
  maxLon :: jsnum
  minLat :: jsnum
  maxLat :: jsnum
  rawpoints :: "vec3 list"
  rawpointcd :: "jsnum list"
  totaldist :: jsnum
  cd :: jsnum
  md :: jsnum
  lastmd :: jsnum
  markerObjs :: "marker_obj list"

definition scan_init :: "vec3 \<Rightarrow> scan_state" where
  "scan_init p =
     \<lparr>lastpt = p, minLon = c0 p, maxLon = c0 p, minLat = c1 p, maxLat = c1 p,
      rawpoints = [p], rawpointcd = [], totaldist = Num 0,
      cd = Num 0, md = Num 0, lastmd = Num 0, markerObjs = []\<rparr>"

text \<open>
  One iteration of the loop, for the point \<open>rawpt = pts[i]\<close> after
  \<open>prev = pts[i - 1]\<close>. At most one marker is placed in an iteration.
\<close>

definition scan_step :: "options \<Rightarrow> vec3 \<Rightarrow> nat \<Rightarrow> vec3 \<Rightarrow> scan_state \<Rightarrow> scan_state" where
  "scan_step opts prev i rawpt st =
     (let segdist = distVincenty (c1 (lastpt st)) (c0 (lastpt st)) (c1 rawpt) (c0 rawpt);
          lastmd' = md st;
          md' = md st + segdist;
          cd' = cd st + segdist;
          st1 = st\<lparr>lastpt := rawpt,
                   minLon := (if c0 rawpt < minLon st then c0 rawpt else minLon st),
                   maxLon := (if c0 rawpt > maxLon st then c0 rawpt else maxLon st),
                   minLat := (if c1 rawpt < minLat st then c1 rawpt else minLat st),
                   maxLat := (if c1 rawpt > maxLat st then c1 rawpt else maxLat st),
                   rawpoints := rawpoints st @ [rawpt],
                   rawpointcd := rawpointcd st @ [cd'],
                   totaldist := totaldist st + segdist,
                   cd := cd', md := md', lastmd := lastmd'\<rparr>
      in if markerInterval opts > Num 0 \<and> md' \<ge> markerInterval opts then
           (let lastSeg = markerInterval opts - lastmd';
                nextSeg = segdist - lastSeg;
                pd = lastSeg / segdist;
                markerpoint = (c0 prev + pd * (c0 rawpt - c0 prev),
                               c1 prev + pd * (c1 rawpt - c1 prev),
                               c2 prev + pd * (c2 rawpt - c2 prev))
            in st1\<lparr>markerObjs := markerObjs st1 @
                       [\<lparr>loc = markerpoint, pos = cd' - nextSeg, seg = i\<rparr>],
                    md := nextSeg\<rparr>)
         else st1)"

fun scan_loop :: "options \<Rightarrow> vec3 \<Rightarrow> nat \<Rightarrow> vec3 list \<Rightarrow> scan_state \<Rightarrow> scan_state" where
  "scan_loop opts prev i [] st = st"
| "scan_loop opts prev i (rawpt # rest) st =
     scan_loop opts rawpt (i + 1) rest (scan_step opts prev i rawpt st)"

text \<open>The loop \<open>for (i = 1; i < pts.length; i++)\<close> from its initial state.\<close>

definition scan_points_loop :: "options \<Rightarrow> vec3 \<Rightarrow> vec3 list \<Rightarrow> scan_state" where
  "scan_points_loop opts p0 rest = scan_loop opts p0 1 rest (scan_init p0)"

section \<open>The distance filter\<close>

text \<open>
  The local variables of \<open>_distFilter\<close>; \<open>total_dist\<close> is the variable
  \<open>total\<close>.
\<close>

record filter_state =
  filteredPts :: "vec3 list"
  filteredDst :: "jsnum list"
  total_dist :: jsnum
  pre :: nat

text \<open>
  The loop of \<open>_distFilter\<close> over \<open>points[1..]\<close>: the distance is measured from the
  current point to \<open>filteredPts[pre]\<close>.
\<close>

fun distFilter_loop :: "jsnum \<Rightarrow> vec3 list \<Rightarrow> filter_state \<Rightarrow> error + filter_state" where
  "distFilter_loop mindist [] st = Inr st"
| "distFilter_loop mindist (p # ps) st =
     (case js_nth (filteredPts st) (int (pre st)) of
        None \<Rightarrow> Inl TypeError
      | Some q \<Rightarrow>
          (let dist = distVincenty (c1 p) (c0 p) (c1 q) (c0 q)
           in if jeq mindist (Num 0) \<or> dist \<ge> mindist
              then distFilter_loop mindist ps
                     \<lparr>filteredPts = filteredPts st @ [p],
                      filteredDst = filteredDst st @ [dist],
                      total_dist = total_dist st + dist,
                      pre = pre st + 1\<rparr>
              else distFilter_loop mindist ps st))"

text \<open>
  \<open>_distFilter(ctx, points, mindist)\<close>. For an empty array the source builds the
  one-element array \<open>[undefined]\<close>, on which the next phase throws a TypeError when it
  reads a coordinate; the model reports that TypeError here. \<open>_scanPoints\<close> always
  passes at least one point.
\<close>

definition distFilter :: "jsnum \<Rightarrow> vec3 list \<Rightarrow> error + filter_state" where
  "distFilter mindist points =
     (case points of
        [] \<Rightarrow> Inl TypeError
      | p # ps \<Rightarrow>
          distFilter_loop mindist ps
            \<lparr>filteredPts = [p], filteredDst = [], total_dist = Num 0, pre = 0\<rparr>)"

text \<open>
  The distance filter in the words of the specification: after the last kept point
  \<open>kept\<close>, a point is kept iff its Vincenty distance to \<open>kept\<close> is at least
  \<open>mindist\<close>.
\<close>

definition point_distance :: "vec3 \<Rightarrow> vec3 \<Rightarrow> jsnum" where
  "point_distance p q = distVincenty (c1 p) (c0 p) (c1 q) (c0 q)"

fun spec_filter :: "jsnum \<Rightarrow> vec3 \<Rightarrow> vec3 list \<Rightarrow> vec3 list" where
  "spec_filter mindist kept [] = []"
| "spec_filter mindist kept (p # ps) =
     (if point_distance p kept \<ge> mindist then p # spec_filter mindist p ps
      else spec_filter mindist kept ps)"

section \<open>The caller's state\<close>

text \<open>
  The two objects that the caller passes to \<open>generate\<close>. The generator works on
  references to them: a write through \<open>ctx.options\<close> is a write to
  \<open>caller_options\<close>. The points array and its elements are only read.
\<close>

record caller_state =
  caller_points :: "vec3 list"
  caller_options :: options

section \<open>\<open>_scanPoints\<close>\<close>

text \<open>The projection that \<open>_scanPoints\<close> configures, written into the options.\<close>

definition configure_projection :: "scan_state \<Rightarrow> options \<Rightarrow> options" where
  "configure_projection st opts =
     (if projtype opts = PROJ_UTM then
        (let lat = (minLat st + maxLat st) / Num 2;
             lon = (minLon st + maxLon st) / Num 2
         in opts\<lparr>projection := UTM_proj lat lon\<rparr>)
      else if projtype opts = PROJ_GOOGLE then opts\<lparr>projection := js_string ''GOOGLE''\<rparr>
      else opts)"

text \<open>The loop that projects the raw markers and pushes them to \<open>ctx.markers\<close>.\<close>

fun project_markers ::
  "options \<Rightarrow> ctx \<Rightarrow> scan_state \<Rightarrow> marker_obj list \<Rightarrow> marker list \<Rightarrow> error + marker list" where
  "project_markers opts c st [] acc = Inr acc"
| "project_markers opts c st (m # ms) acc =
     (case (js_nth (rawpoints st) (int (seg m) - 1), js_nth (rawpoints st) (int (seg m))) of
        (Some p0, Some p1) \<Rightarrow>
          thenE (projectPoint opts c p0
                   (nth_num (rawpointcd st) (int (seg m) - 1) / distance c)) (\<lambda>a.
          thenE (projectPoint opts c p1
                   (nth_num (rawpointcd st) (int (seg m)) / distance c)) (\<lambda>b.
          thenE (projectPoint opts c (loc m) (pos m / distance c)) (\<lambda>l.
          project_markers opts c st ms
            (acc @ [\<lparr>location = l, orientation = vectorAngle a b\<rparr>]))))
      | _ \<Rightarrow> Inl TypeError)"

text \<open>
  The smoothing distance. In the automatic mode \<open>scale\<close> starts as \<open>null\<close>, which
  divides like 0 when the shape type is none of the three.
\<close>

definition smoothing_distance :: "proj4 \<Rightarrow> options \<Rightarrow> ctx \<Rightarrow> scan_state \<Rightarrow> error + jsnum" where
  "smoothing_distance lib opts c st =
     (if smoothtype opts = 0 then
        thenE
          (if shapetype opts = SHAPE_MAP then
             (case lib (js_string ''GOOGLE'') of
                None \<Rightarrow> Inl LibraryError
              | Some google \<Rightarrow>
                  (let minGeo = google (minLon st, minLat st);
                       maxGeo = google (maxLon st, maxLat st)
                   in Inr (calcScale (ctx_bed c)
                             (fst maxGeo - fst minGeo) (snd maxGeo - snd minGeo))))
           else if shapetype opts = SHAPE_LINEAR then
             Inr (calcScale (ctx_bed c) (distance c) (Num 0))
           else if shapetype opts = SHAPE_RING then
             Inr (calcScale (ctx_bed c) (Num 2 * ringRadius c) (Num 2 * ringRadius c))
           else Inr (Num 0))
          (\<lambda>scale. Inr (jfloor (buffer opts / scale)))
      else Inr (smoothspan opts))"

text \<open>
  \<open>_scanPoints(ctx, pts)\<close>. The result is the caller's state after the call together
  with the new context or the error thrown. With no point at all, reading
  \<open>lastpt[0]\<close> throws before anything is written.
\<close>

definition scanPoints :: "proj4 \<Rightarrow> ctx \<Rightarrow> caller_state \<Rightarrow> caller_state \<times> (error + ctx)" where
  "scanPoints lib c h =
     (case caller_points h of
        [] \<Rightarrow> (h, Inl TypeError)
      | p0 # rest \<Rightarrow>
          (let st = scan_points_loop (caller_options h) p0 rest;
               c1 = c\<lparr>distance := totaldist st,
                       ringRadius := totaldist st / (Num pi * Num 2)\<rparr>;
               opts = configure_projection st (caller_options h);
               h' = h\<lparr>caller_options := opts\<rparr>
           in (h',
               case lib (projection opts) of
                 None \<Rightarrow> Inl ProjectionError
               | Some forward \<Rightarrow>
                   (let c2 = c1\<lparr>projector := Some forward\<rparr>
                    in thenE (project_markers opts c2 st (markerObjs st) (markers c2)) (\<lambda>ms.
                       thenE (smoothing_distance lib opts c2 st) (\<lambda>smoothingDistance.
                       thenE (distFilter smoothingDistance (rawpoints st)) (\<lambda>fs.
                       Inr (c2\<lparr>markers := ms, ll := filteredPts fs,
                               d := filteredDst fs, smoothTotal := total_dist fs\<rparr>))))))))"

section \<open>\<open>_projectPoints\<close>\<close>

text \<open>The loop \<open>for (i = 1; i < ctx.ll.length; i++)\<close> with its running distance.\<close>

fun projectPoints_loop ::
  "options \<Rightarrow> ctx \<Rightarrow> nat \<Rightarrow> vec3 list \<Rightarrow> jsnum \<Rightarrow> bounds \<Rightarrow> vec3 list \<Rightarrow>
   error + (bounds \<times> vec3 list)" where
  "projectPoints_loop opts c i [] cdist b acc = Inr (b, acc)"
| "projectPoints_loop opts c i (p # ps) cdist b acc =
     (let cdist' = cdist + nth_num (d c) (int i - 1)
      in thenE (projectPoint opts c p (cdist' / smoothTotal c)) (\<lambda>point.
         projectPoints_loop opts c (i + 1) ps cdist' (Bounds_update b point) (acc @ [point])))"

definition projectPoints :: "options \<Rightarrow> ctx \<Rightarrow> error + ctx" where
  "projectPoints opts c =
     (case ll c of
        [] \<Rightarrow> Inl TypeError
      | p0 # rest \<Rightarrow>
          thenE (projectPoint opts c p0 (Num 0)) (\<lambda>xyz.
          thenE (projectPoints_loop opts c 1 rest (Num 0) (Bounds_new xyz)
                   (projectedPoints c @ [xyz])) (\<lambda>(b, pp).
          let b' = (if regionfit opts
                    then b\<lparr>maxx := region_maxx opts, minx := region_minx opts,
                           maxy := region_maxy opts, miny := region_miny opts\<rparr>
                    else b)
          in Inr (c\<lparr>projectedPoints := pp,
                    ctx_bounds := Some b',
                    ctx_offset := Some (calcOffsets b' (zcut opts)),
                    ctx_scale := Some (scaleBounds b' (ctx_bed c))\<rparr>))))"

section \<open>\<open>generate\<close>\<close>

text \<open>The artifact that \<open>generate\<close> returns.\<close>

record artifact =
  art_code :: ModelCode
  art_bounds :: bounds
  art_distance :: jsnum
  art_outputPoints :: "vec3 list"
  art_scale :: jsnum
  art_bed :: bed

definition calculateZScale :: "options \<Rightarrow> ctx \<Rightarrow> bounds \<Rightarrow> jsnum \<Rightarrow> jsnum" where
  "calculateZScale opts c b scale =
     (if projtype opts = PROJ_CUSTOM
      then bed_y (ctx_bed c) / distVincenty (miny b) (minx b) (maxy b) (minx b)
      else scale)"

definition fit :: "options \<Rightarrow> jsnum \<Rightarrow> jsnum \<Rightarrow> vec3 \<Rightarrow> vec3 \<Rightarrow> vec3" where
  "fit opts scale zscale off v =
     (scale * (c0 v - c0 off),
      scale * (c1 v - c1 off),
      zscale * (c2 v - c2 off) * vertical opts + base opts)"

definition initial_ctx :: "options \<Rightarrow> ctx" where
  "initial_ctx opts =
     \<lparr>ctx_bed = \<lparr>bed_x = bedx opts - Num 2 * buffer opts,
                  bed_y = bedy opts - Num 2 * buffer opts\<rparr>,
      ll = [], d = [], distance = Num 0, ringRadius = Num 0, smoothTotal = Num 0,
      projectedPoints = [], outputPoints = [], markers = [],
      ctx_bounds = None, ctx_offset = None, ctx_scale = None, projector = None\<rparr>"

text \<open>
  \<open>ModelGenerator.generate(pts, options, onProgress)\<close>: the four phases in order. The
  progress callback receives only percentages and is left out. The result is the caller's
  state after the call, and the artifact or the error thrown. No option is validated.
\<close>

definition generate :: "proj4 \<Rightarrow> caller_state \<Rightarrow> caller_state \<times> (error + artifact)" where
  "generate lib h =
     (let (h', scanned) = scanPoints lib (initial_ctx (caller_options h)) h;
          opts = caller_options h'
      in (h',
          thenE scanned (\<lambda>c1.
          thenE (projectPoints opts c1) (\<lambda>c2.
          case (ctx_bounds c2, ctx_offset c2, ctx_scale c2) of
            (Some b, Some off, Some scale) \<Rightarrow>
              (let zscale = calculateZScale opts c2 b scale;
                   out = map (fit opts scale zscale off) (projectedPoints c2);
                   ms = map (\<lambda>m. \<lparr>location = fit opts scale zscale off (location m),
                                  orientation = orientation m\<rparr>) (markers c2)
               in thenE (processPath opts out ms) (\<lambda>mc.
                  Inr \<lparr>art_code = mc, art_bounds = b, art_distance = distance c2,
                       art_outputPoints = out, art_scale = scale,
                       art_bed = \<lparr>bed_x = bedx opts, bed_y = bedy opts\<rparr>\<rparr>))
          | _ \<Rightarrow> Inl TypeError))))"

section \<open>The form collector\<close>

text \<open>
  The values that \<open>collectOptions\<close> reads from the form, after \<open>parseFloat\<close>,
  \<open>parseInt\<close> and the \<open>checked\<close> flags.
\<close>

record form =
  f_pathWidth :: jsnum
  f_vertical :: jsnum
  f_width :: jsnum
  f_depth :: jsnum
  f_base :: jsnum
  f_zcut :: bool
  f_zoverride :: bool
  f_zconstant :: jsnum
  f_regionfit :: bool
  f_eastMin :: jsnum
  f_eastMax :: jsnum
  f_northMin :: jsnum
  f_northMax :: jsnum
  f_shape :: int
  f_proj :: int
  f_projection :: jsstring
  f_marker :: int
  f_markerInterval :: jsnum
  f_smooth :: int
  f_mindist :: jsnum

definition getMarkerInterval :: "form \<Rightarrow> int \<Rightarrow> jsnum" where
  "getMarkerInterval fm type =
     (if type = 0 then Num 0
      else if type = 1 then Num 1000
      else if type = 2 then Num 1609
      else or_default (f_markerInterval fm) (Num 1000))"

definition form_options :: "form \<Rightarrow> options" where
  "form_options fm =
     \<lparr>buffer = f_pathWidth fm / Num 2,
      vertical = f_vertical fm,
      bedx = f_width fm,
      bedy = f_depth fm,
      base = f_base fm,
      zcut = (if f_zoverride fm then False else f_zcut fm),
      zoverride = f_zoverride fm,
      zconstant = or_default (f_zconstant fm) (Num 100),
      regionfit = f_regionfit fm,
      region_minx = or_default (f_eastMin fm) (Num 0),
      region_maxx = or_default (f_eastMax fm) (Num 0),
      region_miny = or_default (f_northMin fm) (Num 0),
      region_maxy = or_default (f_northMax fm) (Num 0),
      shapetype = f_shape fm,
      projtype = f_proj fm,
      projection = f_projection fm,
      markerInterval = getMarkerInterval fm (f_marker fm),
      smoothtype = f_smooth fm,
      smoothspan = or_default (f_mindist fm) (Num 10)\<rparr>"

text \<open>
  The code units that \<open>String.prototype.trim\<close> strips: the white space of
  ECMAScript (tab, vertical tab, form feed, the byte order mark U+FEFF and the space
  separators of Unicode) and its line terminators (line feed, carriage return, U+2028,
  U+2029).
\<close>

definition is_white_space :: "16 word \<Rightarrow> bool" where
  "is_white_space u =
     (u \<in> set [0x0009, 0x000A, 0x000B, 0x000C, 0x000D, 0x0020, 0x00A0, 0x1680,
                0x2000, 0x2001, 0x2002, 0x2003, 0x2004, 0x2005, 0x2006, 0x2007,
                0x2008, 0x2009, 0x200A, 0x2028, 0x2029, 0x202F, 0x205F, 0x3000, 0xFEFF])"

text \<open>\<open>!s.trim()\<close>: nothing is left of the string once its white space is stripped.\<close>

definition blank :: "jsstring \<Rightarrow> bool" where
  "blank s = list_all is_white_space s"

text \<open>
  \<open>collectOptions()\<close>: the options, or \<open>null\<close> after an error message when a value
  is out of range.
\<close>

definition collectOptions :: "form \<Rightarrow> options option" where
  "collectOptions fm =
     (let opts = form_options fm
      in if \<not> isFinite (vertical opts) \<or> vertical opts < Num 1 then None
         else if \<not> isFinite (bedx opts) \<or> bedx opts < Num 20 then None
         else if \<not> isFinite (bedy opts) \<or> bedy opts < Num 20 then None
         else if \<not> isFinite (buffer opts) \<or> buffer opts < Num (1 / 2) then None
         else if projtype opts = 1 \<and> blank (projection opts) then None
         else Some opts)"

text \<open>
  \<open>generateModel()\<close>: nothing is generated without a loaded track or without valid
  options; otherwise the generator runs on the collected options.
\<close>

definition generateModel ::
  "proj4 \<Rightarrow> vec3 list option \<Rightarrow> form \<Rightarrow> (caller_state \<times> (error + artifact)) option" where
  "generateModel lib gpxData fm =
     (case gpxData of
        None \<Rightarrow> None
      | Some pts \<Rightarrow>
          (case collectOptions fm of
             None \<Rightarrow> None
           | Some opts \<Rightarrow>
               Some (generate lib \<lparr>caller_points = pts, caller_options = opts\<rparr>)))"

section \<open>Binary STL\<close>

text \<open>
  An \<open>ArrayBuffer\<close> is a list of bytes, zero-filled when created. A
  \<open>DataView\<close> setter throws a RangeError when the bytes it writes do not lie inside
  the buffer; otherwise it overwrites them in place.
\<close>

type_synonym byte = "8 word"

definition ArrayBuffer :: "nat \<Rightarrow> byte list" where
  "ArrayBuffer n = replicate n 0"

definition store :: "byte list \<Rightarrow> nat \<Rightarrow> byte list \<Rightarrow> byte list" where
  "store buf off bs = take off buf @ bs @ drop (off + length bs) buf"

text \<open>The \<open>k\<close> low-order bytes of a number, least significant first.\<close>

definition le_bytes :: "nat \<Rightarrow> nat \<Rightarrow> byte list" where
  "le_bytes k v = map (\<lambda>j. of_nat (v div 256 ^ j)) [0..<k]"

definition setUint8 :: "byte list \<Rightarrow> nat \<Rightarrow> nat \<Rightarrow> error + byte list" where
  "setUint8 buf off v =
     (if off + 1 \<le> length buf then Inr (store buf off (le_bytes 1 (v mod 2 ^ 8)))
      else Inl RangeError)"

definition setUint16 :: "byte list \<Rightarrow> nat \<Rightarrow> nat \<Rightarrow> error + byte list" where
  "setUint16 buf off v =
     (if off + 2 \<le> length buf then Inr (store buf off (le_bytes 2 (v mod 2 ^ 16)))
      else Inl RangeError)"

definition setUint32 :: "byte list \<Rightarrow> nat \<Rightarrow> nat \<Rightarrow> error + byte list" where
  "setUint32 buf off v =
     (if off + 4 \<le> length buf then Inr (store buf off (le_bytes 4 (v mod 2 ^ 32)))
      else Inl RangeError)"

text \<open>
  \<open>setFloat32\<close> writes the IEEE-754 binary32 encoding of a number. The encoding
  belongs to the platform; it is the parameter \<open>f32\<close>, a function from numbers to
  32-bit words.
\<close>

definition setFloat32 ::
  "(jsnum \<Rightarrow> 32 word) \<Rightarrow> byte list \<Rightarrow> nat \<Rightarrow> jsnum \<Rightarrow> error + byte list" where
  "setFloat32 f32 buf off x =
     (if off + 4 \<le> length buf then Inr (store buf off (le_bytes 4 (unat (f32 x))))
      else Inl RangeError)"

text \<open>\<open>getUint32(off, true)\<close>: the little-endian unsigned integer at an offset.\<close>

definition getUint32 :: "byte list \<Rightarrow> nat \<Rightarrow> error + nat" where
  "getUint32 buf off =
     (if off + 4 \<le> length buf
      then Inr (unat (buf ! off) + 256 * unat (buf ! (off + 1)) +
                256 ^ 2 * unat (buf ! (off + 2)) + 256 ^ 3 * unat (buf ! (off + 3)))
      else Inl RangeError)"

definition header :: string where
  "header = ''STL gerado por GPXtruder Modern''"

text \<open>The loop \<open>for (i = 0; i < 80; i++)\<close> that writes the banner.\<close>

function write_header :: "byte list \<Rightarrow> nat \<Rightarrow> error + byte list" where
  "write_header buf i =
     (if i < 80 then
        thenE (setUint8 buf i (if i < length header then of_char (header ! i) else 0))
          (\<lambda>buf'. write_header buf' (i + 1))
      else Inr buf)"
  by pat_completeness auto
termination
  by (relation "measure (\<lambda>(buf, i). 80 - i)") auto

text \<open>
  The thirteen writes of one 50-byte record: the normal, the three vertices, the
  attribute count; \<open>offset\<close> advances by the size of each field.
\<close>

definition write_record ::
  "(jsnum \<Rightarrow> 32 word) \<Rightarrow> jsnum \<Rightarrow> jsnum \<Rightarrow> jsnum \<Rightarrow> vec3 \<Rightarrow> vec3 \<Rightarrow> vec3 \<Rightarrow>
   byte list \<Rightarrow> nat \<Rightarrow> error + byte list" where
  "write_record f32 nx ny nz v0 v1 v2 buf offset =
     thenE (setFloat32 f32 buf offset nx) (\<lambda>b1.
     thenE (setFloat32 f32 b1 (offset + 4) ny) (\<lambda>b2.
     thenE (setFloat32 f32 b2 (offset + 8) nz) (\<lambda>b3.
     thenE (setFloat32 f32 b3 (offset + 12) (c0 v0)) (\<lambda>b4.
     thenE (setFloat32 f32 b4 (offset + 16) (c1 v0)) (\<lambda>b5.
     thenE (setFloat32 f32 b5 (offset + 20) (c2 v0)) (\<lambda>b6.
     thenE (setFloat32 f32 b6 (offset + 24) (c0 v1)) (\<lambda>b7.
     thenE (setFloat32 f32 b7 (offset + 28) (c1 v1)) (\<lambda>b8.
     thenE (setFloat32 f32 b8 (offset + 32) (c2 v1)) (\<lambda>b9.
     thenE (setFloat32 f32 b9 (offset + 36) (c0 v2)) (\<lambda>b10.
     thenE (setFloat32 f32 b10 (offset + 40) (c1 v2)) (\<lambda>b11.
     thenE (setFloat32 f32 b11 (offset + 44) (c2 v2)) (\<lambda>b12.
     setUint16 b12 (offset + 48) 0))))))))))))"

text \<open>
  One iteration of the triangle loop: the normal is the cross product of two edges,
  divided by its length when that is positive; then the record is written.
\<close>

definition write_triangle ::
  "(jsnum \<Rightarrow> 32 word) \<Rightarrow> vec3 \<Rightarrow> vec3 \<Rightarrow> vec3 \<Rightarrow> byte list \<Rightarrow> nat \<Rightarrow> error + byte list" where
  "write_triangle f32 v0 v1 v2 buf offset =
     (let ux = c0 v1 - c0 v0; uy = c1 v1 - c1 v0; uz = c2 v1 - c2 v0;
          vx = c0 v2 - c0 v0; vy = c1 v2 - c1 v0; vz = c2 v2 - c2 v0;
          nx0 = uy * vz - uz * vy;
          ny0 = uz * vx - ux * vz;
          nz0 = ux * vy - uy * vx;
          len = jsqrt (nx0 * nx0 + ny0 * ny0 + nz0 * nz0);
          nx = (if len > Num 0 then nx0 / len else nx0);
          ny = (if len > Num 0 then ny0 / len else ny0);
          nz = (if len > Num 0 then nz0 / len else nz0)
      in write_record f32 nx ny nz v0 v1 v2 buf offset)"

text \<open>
  The loop over the faces. A face index outside the vertex array reads
  \<open>undefined\<close>, and taking a coordinate of it throws a TypeError.
\<close>

fun write_triangles ::
  "(jsnum \<Rightarrow> 32 word) \<Rightarrow> vec3 list \<Rightarrow> face list \<Rightarrow> byte list \<Rightarrow> nat \<Rightarrow> error + byte list" where
  "write_triangles f32 pts [] buf offset = Inr buf"
| "write_triangles f32 pts ((i0, i1, i2) # fs) buf offset =
     (case (js_nth pts i0, js_nth pts i1, js_nth pts i2) of
        (Some v0, Some v1, Some v2) \<Rightarrow>
          thenE (write_triangle f32 v0 v1 v2 buf offset)
            (\<lambda>buf'. write_triangles f32 pts fs buf' (offset + 50))
      | _ \<Rightarrow> Inl TypeError)"

definition generateSTL :: "(jsnum \<Rightarrow> 32 word) \<Rightarrow> ModelCode \<Rightarrow> error + byte list" where
  "generateSTL f32 code =
     (let numTriangles = length (rawFaces code);
          bufferSize = 84 + numTriangles * 50;
          buffer = ArrayBuffer bufferSize
      in thenE (write_header buffer 0) (\<lambda>b1.
         thenE (setUint32 b1 80 numTriangles) (\<lambda>b2.
         write_triangles f32 (rawPoints code) (rawFaces code) b2 84)))"

section \<open>Well-formed meshes\<close>

text \<open>A face whose three indices are indices of an array of \<open>n\<close> vertices.\<close>

definition face_in_range :: "nat \<Rightarrow> face \<Rightarrow> bool" where
  "face_in_range n f =
     (case f of (a, b, c) \<Rightarrow>
        0 \<le> a \<and> a < int n \<and> 0 \<le> b \<and> b < int n \<and> 0 \<le> c \<and> c < int n)"

text \<open>
  What the station loop maintains: four vertices per accepted station, the start cap and
  eight faces per later station, and no face index beyond the vertices built so far.
\<close>

definition path_inv :: "path_state \<Rightarrow> bool" where
  "path_inv st =
     (length (vertices st) = 4 * stations st \<and>
      length (faces st) = (if stations st = 0 then 0 else 2 + 8 * (stations st - 1)) \<and>
      list_all (face_in_range (length (vertices st))) (faces st))"

section \<open>Buffers that agree on a prefix\<close>

text \<open>
  \<open>frame n buf b\<close>: the buffer \<open>b\<close> has the size of \<open>buf\<close> and the same first
  \<open>n\<close> bytes. Writes at offsets from \<open>n\<close> on preserve it.
\<close>

definition frame :: "nat \<Rightarrow> byte list \<Rightarrow> byte list \<Rightarrow> bool" where
  "frame n buf b = (length b = length buf \<and> take n b = take n buf)"

section \<open>Segment distances of a track\<close>

text \<open>
  The values of \<open>segdist\<close> in the iterations of the scan loop: the Vincenty distance
  from each raw point to the next.
\<close>

fun segment_distances :: "vec3 \<Rightarrow> vec3 list \<Rightarrow> jsnum list" where
  "segment_distances prev [] = []"
| "segment_distances prev (p # ps) =
     distVincenty (c1 prev) (c0 prev) (c1 p) (c0 p) # segment_distances p ps"

section \<open>Sample inputs\<close>

text \<open>
  The options of the first end-to-end scenario (linear shape, buffer 5, bed 100 by 100),
  with manual smoothing at distance 0 so that no point is filtered out.
\<close>

definition sample_options :: options where
  "sample_options =
     \<lparr>buffer = Num 5, vertical = Num 1, bedx = Num 100, bedy = Num 100, base = Num 1,
      zcut = False, zoverride = False, zconstant = Num 100,
      regionfit = False, region_minx = Num 0, region_maxx = Num 0,
      region_miny = Num 0, region_maxy = Num 0,
      shapetype = 1, projtype = 0, projection = [],
      markerInterval = Num 0, smoothtype = 1, smoothspan = Num 0\<rparr>"

text \<open>Two fitted stations on a straight line, and a path of a single station.\<close>

definition sample_path :: "vec3 list" where
  "sample_path = [(Num 0, Num 0, Num 11), (Num 0, Num 90, Num 11)]"

definition single_station :: "vec3 list" where
  "single_station = [(Num 0, Num 0, Num 11)]"

text \<open>A mesh of one triangle over three vertices.\<close>

definition sample_mesh :: ModelCode where
  "sample_mesh =
     \<lparr>rawPoints = [(Num 0, Num 0, Num 0), (Num 1, Num 0, Num 0), (Num 0, Num 1, Num 0)],
      rawFaces = [(0, 1, 2)],
      rawMarkers = [],
      markerWidth = Num 12\<rparr>"

text \<open>
  The value of the formula after the loop for a quarter of a meridian, from the equator
  to a pole: \<open>b A \<sigma>\<close> with \<open>\<sigma> = \<pi>/2\<close>, \<open>cosSqAlpha = 1\<close> and
  \<open>deltaSigma = 0\<close>.
\<close>

definition quarter_meridian :: real where
  "quarter_meridian =
     (let uSq = 1 * (wgs84_a * wgs84_a - wgs84_b * wgs84_b) / (wgs84_b * wgs84_b)
      in wgs84_b *
         (1 + uSq / 16384 * (4096 + uSq * (- 768 + uSq * (320 - 175 * uSq)))) * (pi / 2))"

text \<open>
  A track of two points, as \<open>[lon, lat, ele]\<close>: from the equator to the north pole
  along the meridian of Greenwich.
\<close>

definition sample_track :: "vec3 list" where
  "sample_track = [(Num 0, Num 0, Num 0), (Num 0, Num 90, Num 0)]"

text \<open>
  A projection library that knows the definition \<open>GOOGLE\<close> and no other. The
  transform itself plays no part in the linear shape of the sample options and is the
  equirectangular map of the sphere.
\<close>

definition sample_proj4 :: proj4 where
  "sample_proj4 def =
     (if def = js_string ''GOOGLE''
      then Some (\<lambda>(lon, lat). (Num wgs84_a * toRad lon, Num wgs84_a * toRad lat))
      else None)"

text \<open>
  The sample options with markers: the interval is half the length of the sample track,
  so that two markers are due on it.
\<close>

definition marker_options :: options where
  "marker_options = sample_options\<lparr>markerInterval := Num (quarter_meridian / 2)\<rparr>"

text \<open>Two calls of the generator on the sample track, the second with \<open>vertical = 0.5\<close>.\<close>

definition sample_call :: caller_state where
  "sample_call = \<lparr>caller_points = sample_track, caller_options = sample_options\<rparr>"

definition low_vertical_call :: caller_state where
  "low_vertical_call =
     \<lparr>caller_points = sample_track,
      caller_options = sample_options\<lparr>vertical := Num (1 / 2)\<rparr>\<rparr>"

text \<open>
  Three filled-in forms: one with \<open>vertical = 0.5\<close>, below the range that the form
  accepts; one within every range; one that asks for a custom projection and gives a
  no-break space and a byte order mark for it.
\<close>

definition low_vertical_form :: form where
  "low_vertical_form =
     \<lparr>f_pathWidth = Num 10, f_vertical = Num (1 / 2), f_width = Num 100, f_depth = Num 100,
      f_base = Num 1, f_zcut = False, f_zoverride = False, f_zconstant = Num 100,
      f_regionfit = False, f_eastMin = Num 0, f_eastMax = Num 0,
      f_northMin = Num 0, f_northMax = Num 0,
      f_shape = 1, f_proj = 0, f_projection = [],
      f_marker = 0, f_markerInterval = Num 0, f_smooth = 1, f_mindist = Num 10\<rparr>"

definition valid_form :: form where
  "valid_form = low_vertical_form\<lparr>f_vertical := Num 1\<rparr>"

definition blank_projection_form :: form where
  "blank_projection_form = valid_form\<lparr>f_proj := 1, f_projection := [0x00A0, 0xFEFF]\<rparr>"

section \<open>Facts about the path builder\<close>

declare processPath_loop.simps [simp del]
declare segmentAngle.simps [simp del]

lemma segmentAngle_in_range:
  assumes "2 \<le> length pts" "i < length pts"
  shows "\<exists>a. segmentAngle pts (int i) = Inr a"
proof (cases "i + 1 = length pts")
  case True
  then have "segmentAngle pts (int i) = segmentAngle pts (int i - 1)"
    by (subst segmentAngle.simps) (simp add: algebra_simps)
  also have "\<exists>a. segmentAngle pts (int i - 1) = Inr a"
    using True assms by (subst segmentAngle.simps) (auto simp: js_nth_def)
  finally show ?thesis .
next
  case False
  then show ?thesis using assms
    by (subst segmentAngle.simps) (auto simp: js_nth_def)
qed

lemma segmentAngle_single: "segmentAngle [p] 0 = Inl TypeError"
proof -
  have "segmentAngle [p] 0 = segmentAngle [p] (- 1)"
    by (subst segmentAngle.simps) simp
  also have "\<dots> = Inl TypeError"
    by (subst segmentAngle.simps) (simp add: js_nth_def)
  finally show ?thesis .
qed

lemma jsub_self_not_acute: "\<not> isAcute (jadd a (jneg a))"
  by (cases a) (auto simp: isAcute_def)

lemma acute_run_in_range:
  assumes "2 \<le> length pts" "i < length pts"
  shows "\<exists>b. acute_run pts i angle rel = Inr b"
proof (cases "isAcute rel \<and> i + 1 < length pts")
  case True
  then obtain a where "segmentAngle pts (int (i + 1)) = Inr a"
    using segmentAngle_in_range [OF assms(1), of "i + 1"] by auto
  then show ?thesis using True by (simp add: acute_run_def add.commute)
next
  case False
  then show ?thesis by (auto simp: acute_run_def)
qed

lemma face_in_range_mono: "face_in_range n f \<Longrightarrow> n \<le> m \<Longrightarrow> face_in_range m f"
  by (auto simp: face_in_range_def split: prod.splits)

lemma path_inv_init: "path_inv init_path_state"
  by (simp add: path_inv_def init_path_state_def)

lemma path_inv_accept:
  assumes "path_inv st"
  shows "path_inv (accept_station opts p rel joint angle st)"
proof -
  have old: "list_all (face_in_range (length (vertices st) + 4)) (faces st)"
    using assms by (auto simp: path_inv_def list_all_iff intro: face_in_range_mono)
  show ?thesis
  proof (cases "stations st = 0")
    case True
    then show ?thesis using assms
      by (simp add: path_inv_def accept_station_def PathSegment_points_def
            PathSegment_faces_def firstFace_def face_in_range_def)
  next
    case False
    then obtain k where k: "stations st = Suc k" by (cases "stations st") auto
    show ?thesis using assms old k
      by (simp add: path_inv_def accept_station_def PathSegment_points_def
            PathSegment_faces_def Let_def face_in_range_def algebra_simps)
  qed
qed

text \<open>
  An invariant of the station loop: a property that holds before the loop, that accepting
  a station preserves, and that does not depend on \<open>lastAngle\<close>, holds after it.
\<close>

lemma processPath_loop_rule:
  fixes P :: "path_state \<Rightarrow> bool"
  assumes run: "processPath_loop opts pts i st = Inr st'"
    and init: "P st"
    and acc: "\<And>s ops p rel joint angle. P s \<Longrightarrow> P (accept_station ops p rel joint angle s)"
    and skip: "\<And>s a. P s \<Longrightarrow> P (s\<lparr>lastAngle := a\<rparr>)"
  shows "P st'"
  using run init
proof (induction opts pts i st rule: processPath_loop.induct)
  case (1 opts pts i st)
  show ?case
  proof (cases "i < length pts")
    case False
    with "1.prems" show ?thesis by (simp add: processPath_loop.simps)
  next
    case True
    from "1.prems"(1) True obtain angle where a: "segmentAngle pts (int i) = Inr angle"
      by (subst (asm) processPath_loop.simps) (auto split: sum.splits)
    define last where "last = (if i = 0 then angle else lastAngle st)"
    define rel where "rel = angle - last"
    define joint where "joint = rel / Num 2 + last"
    from "1.prems"(1) True a obtain b where s: "acute_run pts i angle rel = Inr b"
      by (subst (asm) processPath_loop.simps)
        (auto simp: Let_def last_def rel_def split: sum.splits)
    show ?thesis
    proof (cases b)
      case True
      have "processPath_loop opts pts (i + 1) (st\<lparr>lastAngle := last\<rparr>) = Inr st'"
        using "1.prems"(1) \<open>i < length pts\<close> a s True
        by (subst (asm) processPath_loop.simps) (simp add: Let_def last_def rel_def)
      moreover have "P (st\<lparr>lastAngle := last\<rparr>)"
        using "1.prems"(2) by (rule skip)
      ultimately show ?thesis
        using "1.IH"(1)[OF \<open>i < length pts\<close> a last_def rel_def joint_def s] True acc skip
        by blast
    next
      case False
      have "processPath_loop opts pts (i + 1)
              (accept_station opts (pts ! i) rel joint angle st) = Inr st'"
        using "1.prems"(1) \<open>i < length pts\<close> a s False
        by (subst (asm) processPath_loop.simps)
          (simp add: Let_def last_def rel_def joint_def)
      moreover have "P (accept_station opts (pts ! i) rel joint angle st)"
        using "1.prems"(2) by (rule acc)
      ultimately show ?thesis
        using "1.IH"(2)[OF \<open>i < length pts\<close> a last_def rel_def joint_def s] False acc skip
        by blast
    qed
  qed
qed

lemma processPath_loop_inv:
  assumes "processPath_loop opts pts i st = Inr st'" and "path_inv st"
  shows "path_inv st'"
proof (rule processPath_loop_rule [OF assms(1), where P = path_inv])
  show "path_inv st" by (rule assms(2))
next
  fix s :: path_state and ops p rel joint angle
  assume "path_inv s"
  then show "path_inv (accept_station ops p rel joint angle s)"
    by (rule path_inv_accept)
next
  fix s :: path_state and a
  assume "path_inv s"
  then show "path_inv (s\<lparr>lastAngle := a\<rparr>)" by (auto simp: path_inv_def)
qed

lemma processPath_loop_extends:
  assumes "processPath_loop opts pts i st = Inr st'"
  shows "(\<exists>vs. vertices st' = vertices st @ vs) \<and> (\<exists>fs. faces st' = faces st @ fs) \<and>
         stations st \<le> stations st'"
proof -
  let ?P = "\<lambda>s :: path_state.
              (\<exists>vs. vertices s = vertices st @ vs) \<and> (\<exists>fs. faces s = faces st @ fs) \<and>
              stations st \<le> stations s"
  have "?P st'"
  proof (rule processPath_loop_rule [OF assms, where P = ?P])
    show "?P st" by simp
  next
    fix s :: path_state and ops p rel joint angle
    assume "?P s"
    then show "?P (accept_station ops p rel joint angle s)"
      by (auto simp: accept_station_def PathSegment_points_def PathSegment_faces_def
            firstFace_def Let_def)
  next
    fix s :: path_state and a
    assume "?P s"
    then show "?P (s\<lparr>lastAngle := a\<rparr>)" by simp
  qed
  then show ?thesis .
qed

lemma processPath_loop_succeeds:
  assumes "2 \<le> length pts"
  shows "\<exists>st'. processPath_loop opts pts i st = Inr st'"
  using assms
proof (induction opts pts i st rule: processPath_loop.induct)
  case (1 opts pts i st)
  show ?case
  proof (cases "i < length pts")
    case False
    then show ?thesis by (simp add: processPath_loop.simps)
  next
    case True
    obtain angle where a: "segmentAngle pts (int i) = Inr angle"
      using segmentAngle_in_range [OF "1.prems" True] by blast
    define last where "last = (if i = 0 then angle else lastAngle st)"
    define rel where "rel = angle - last"
    define joint where "joint = rel / Num 2 + last"
    obtain b where s: "acute_run pts i angle rel = Inr b"
      using acute_run_in_range [OF "1.prems" True] by blast
    show ?thesis
    proof (cases b)
      case True
      have "processPath_loop opts pts i st =
            processPath_loop opts pts (i + 1) (st\<lparr>lastAngle := last\<rparr>)"
        using \<open>i < length pts\<close> a s True
        by (subst processPath_loop.simps) (simp add: Let_def last_def rel_def)
      then show ?thesis
        using "1.IH"(1)[OF \<open>i < length pts\<close> a last_def rel_def joint_def s] True "1.prems"
        by simp
    next
      case False
      have "processPath_loop opts pts i st =
            processPath_loop opts pts (i + 1)
              (accept_station opts (pts ! i) rel joint angle st)"
        using \<open>i < length pts\<close> a s False
        by (subst processPath_loop.simps) (simp add: Let_def last_def rel_def joint_def)
      then show ?thesis
        using "1.IH"(2)[OF \<open>i < length pts\<close> a last_def rel_def joint_def s] False "1.prems"
        by simp
    qed
  qed
qed

text \<open>The first iteration accepts station 0: its relative angle is a number minus itself.\<close>

lemma processPath_loop_first:
  assumes "2 \<le> length pts" and "segmentAngle pts 0 = Inr angle"
  shows "processPath_loop opts pts 0 st =
         processPath_loop opts pts 1
           (accept_station opts (pts ! 0) (angle - angle)
              ((angle - angle) / Num 2 + angle) angle st)"
proof -
  have "acute_run pts 0 angle (angle - angle) = Inr False"
    by (simp add: acute_run_def jsub_self_not_acute)
  then show ?thesis using assms
    by (subst processPath_loop.simps) (auto simp: Let_def)
qed

lemma length_lastFace: "length (lastFace a s) = length a + 2"
  by (simp add: lastFace_def Let_def)

lemma accepted_stations_run:
  assumes "1 \<le> accepted_stations opts pts"
  obtains st where "processPath_loop opts pts 0 init_path_state = Inr st"
    and "stations st = accepted_stations opts pts"
  using assms by (auto simp: accepted_stations_def split: sum.splits)

lemma sample_path_accepted: "accepted_stations sample_options sample_path = 2"
proof -
  have a0: "segmentAngle sample_path 0 = Inr (Num (pi / 2))"
    by (subst segmentAngle.simps)
      (simp add: sample_path_def js_nth_def vectorAngle_def atan2_def)
  have a1: "segmentAngle sample_path 1 = Inr (Num (pi / 2))"
    using a0 by (subst segmentAngle.simps) (simp add: sample_path_def)
  have r: "acute_run sample_path i a (Num 0) = Inr False" for i a
    by (simp add: acute_run_def isAcute_def)
  have "processPath_loop sample_options sample_path 0 init_path_state =
        processPath_loop sample_options sample_path 1
          (accept_station sample_options (sample_path ! 0) (Num 0)
             (Num 0 / Num 2 + Num (pi / 2)) (Num (pi / 2)) init_path_state)"
    using a0 r by (subst processPath_loop.simps) (simp add: Let_def sample_path_def)
  also have "\<dots> =
        processPath_loop sample_options sample_path 2
          (accept_station sample_options (sample_path ! 1) (Num 0)
             (Num 0 / Num 2 + Num (pi / 2)) (Num (pi / 2))
             (accept_station sample_options (sample_path ! 0) (Num 0)
                (Num 0 / Num 2 + Num (pi / 2)) (Num (pi / 2)) init_path_state))"
    using a1 r
    by (subst processPath_loop.simps)
      (simp add: Let_def sample_path_def accept_station_def numeral_2_eq_2)
  also have "\<dots> = Inr (accept_station sample_options (sample_path ! 1) (Num 0)
             (Num 0 / Num 2 + Num (pi / 2)) (Num (pi / 2))
             (accept_station sample_options (sample_path ! 0) (Num 0)
                (Num 0 / Num 2 + Num (pi / 2)) (Num (pi / 2)) init_path_state))"
    by (subst processPath_loop.simps) (simp add: sample_path_def)
  finally show ?thesis
    by (simp add: accepted_stations_def accept_station_def init_path_state_def)
qed

section \<open>The claims about the path builder\<close>

text \<open>
  Claim C5. When the station loop has accepted \<open>S \<ge> 2\<close> stations, the path builder
  returns a mesh with exactly \<open>4 S\<close> vertices and exactly \<open>2 + 2 + 8 (S - 1)\<close>
  triangles: the start cap, the end cap and eight triangles for each bridge between
  consecutive accepted stations.
\<close>

theorem path_builder_counts:
  assumes "2 \<le> accepted_stations opts pts"
  shows "\<exists>code. processPath opts pts ms = Inr code \<and>
           length (rawPoints code) = 4 * accepted_stations opts pts \<and>
           length (rawFaces code) = 2 + 2 + 8 * (accepted_stations opts pts - 1)"
proof -
  from assms have "1 \<le> accepted_stations opts pts" by simp
  then obtain st where run: "processPath_loop opts pts 0 init_path_state = Inr st"
    and s: "stations st = accepted_stations opts pts"
    by (rule accepted_stations_run)
  have "path_inv st"
    using run path_inv_init by (rule processPath_loop_inv)
  then have "length (vertices st) = 4 * stations st"
    and "length (faces st) = 2 + 8 * (stations st - 1)"
    using assms s by (auto simp: path_inv_def)
  then show ?thesis
    using run s by (simp add: processPath_def length_lastFace)
qed

theorem path_builder_counts_witness:
  "2 \<le> accepted_stations sample_options sample_path \<and>
   (\<exists>code. processPath sample_options sample_path [] = Inr code \<and>
      length (rawPoints code) = 8 \<and> length (rawFaces code) = 12)"
  using path_builder_counts [of sample_options sample_path "[]"]
  by (simp add: sample_path_accepted)

text \<open>
  Claim C6. In every mesh that the path builder returns from at least one accepted
  station, each of the three indices of each triangle, of the caps and of the bridges
  alike, is at least 0 and less than the number of vertices.
\<close>

theorem triangle_indices_in_range:
  assumes "processPath opts pts ms = Inr code"
    and "1 \<le> accepted_stations opts pts"
  shows "list_all (face_in_range (length (rawPoints code))) (rawFaces code)"
proof -
  obtain st where run: "processPath_loop opts pts 0 init_path_state = Inr st"
    and s: "stations st = accepted_stations opts pts"
    using assms(2) by (rule accepted_stations_run)
  have inv: "path_inv st"
    using run path_inv_init by (rule processPath_loop_inv)
  have "1 \<le> stations st"
    using assms(2) s by simp
  then obtain k where k: "stations st = Suc k"
    by (cases "stations st") auto
  have len: "length (vertices st) = 4 * Suc k"
    using inv k by (simp add: path_inv_def)
  have code: "code = \<lparr>rawPoints = vertices st,
                  rawFaces = lastFace (faces st) (int (length (vertices st)) div 4),
                  rawMarkers = ms,
                  markerWidth = Num 2 * buffer opts + Num 2\<rparr>"
    using assms(1) run by (simp add: processPath_def)
  have "list_all (face_in_range (length (vertices st))) (faces st)"
    using inv unfolding path_inv_def by blast
  moreover have "int (length (vertices st)) div 4 = int (Suc k)"
    using len by simp
  ultimately show ?thesis
    using len by (simp add: code lastFace_def Let_def face_in_range_def)
qed

theorem triangle_indices_in_range_witness:
  "1 \<le> accepted_stations sample_options sample_path \<and>
   (\<exists>code. processPath sample_options sample_path [] = Inr code \<and>
      list_all (face_in_range (length (rawPoints code))) (rawFaces code))"
proof -
  have acc: "1 \<le> accepted_stations sample_options sample_path"
    by (simp add: sample_path_accepted)
  obtain st where "processPath_loop sample_options sample_path 0 init_path_state = Inr st"
    using acc by (rule accepted_stations_run)
  then obtain code where code: "processPath sample_options sample_path [] = Inr code"
    by (simp add: processPath_def)
  from triangle_indices_in_range [OF code acc] code acc show ?thesis by blast
qed

text \<open>
  Claim C10, as stated, fails for a sequence of a single fitted point: the heading of
  station 0 is then read from the point at index \<open>-1\<close>, which is \<open>undefined\<close>,
  and the path builder throws a TypeError instead of accepting the station.
\<close>

theorem single_station_throws:
  "processPath sample_options single_station [] = Inl TypeError"
proof -
  have "segmentAngle single_station 0 = Inl TypeError"
    unfolding single_station_def by (rule segmentAngle_single)
  then have "processPath_loop sample_options single_station 0 init_path_state = Inl TypeError"
    by (subst processPath_loop.simps) (simp add: single_station_def)
  then show ?thesis by (simp add: processPath_def)
qed

text \<open>
  Claim C10, amended. For every fitted point sequence of at least two points the acute-run
  collapse does not skip station 0: its relative angle is its heading minus itself, which
  is not acute, so the path builder returns a mesh whose vertices 0 to 3 are the
  cross-section of the first point and whose first two triangles are the start cap.
\<close>

theorem first_station_accepted:
  assumes "2 \<le> length pts"
  shows "\<exists>code angle.
           processPath opts pts ms = Inr code \<and>
           segmentAngle pts 0 = Inr angle \<and>
           \<not> isAcute (angle - angle) \<and>
           take 4 (rawPoints code) =
             PathSegment_points []
               (jointPoints opts (pts ! 0) (angle - angle)
                  ((angle - angle) / Num 2 + angle))
               (c2 (pts ! 0)) \<and>
           take 2 (rawFaces code) = firstFace []"
proof -
  have "0 < length pts"
    using assms by linarith
  from segmentAngle_in_range [OF assms this]
  obtain angle where a: "segmentAngle pts 0 = Inr angle"
    by auto
  define st1 where "st1 = accept_station opts (pts ! 0) (angle - angle)
              ((angle - angle) / Num 2 + angle) angle init_path_state"
  have first: "processPath_loop opts pts 0 init_path_state = processPath_loop opts pts 1 st1"
    unfolding st1_def using assms a by (rule processPath_loop_first)
  obtain st where run: "processPath_loop opts pts 1 st1 = Inr st"
    using processPath_loop_succeeds [OF assms] by blast
  obtain vs fs where vs: "vertices st = vertices st1 @ vs" and fs: "faces st = faces st1 @ fs"
    using processPath_loop_extends [OF run] by blast
  have v1: "vertices st1 = PathSegment_points []
               (jointPoints opts (pts ! 0) (angle - angle)
                  ((angle - angle) / Num 2 + angle))
               (c2 (pts ! 0))"
    and f1: "faces st1 = firstFace []"
    by (simp_all add: st1_def accept_station_def init_path_state_def PathSegment_faces_def)
  have "length (vertices st1) = 4" and "length (faces st1) = 2"
    by (simp_all add: v1 f1 PathSegment_points_def firstFace_def)
  then have "take 4 (vertices st) = vertices st1"
    and "take 2 (lastFace (faces st) (int (length (vertices st)) div 4)) = faces st1"
    by (simp_all add: vs fs lastFace_def Let_def)
  then show ?thesis
    using first run a v1 f1 by (simp add: processPath_def jsub_self_not_acute)
qed

theorem first_station_accepted_witness:
  "2 \<le> length sample_path \<and>
   (\<exists>code. processPath sample_options sample_path [] = Inr code \<and>
      take 2 (rawFaces code) = [(0, 2, 3), (3, 1, 0)])"
  using first_station_accepted [of sample_path sample_options "[]"]
  by (auto simp: sample_path_def firstFace_def)

section \<open>Facts about the STL emitter\<close>

declare write_header.simps [simp del]

lemma length_le_bytes: "length (le_bytes k v) = k"
  by (simp add: le_bytes_def)

lemma length_store:
  "off + length bs \<le> length buf \<Longrightarrow> length (store buf off bs) = length buf"
  by (simp add: store_def)

lemma take_store:
  "n \<le> off \<Longrightarrow> off \<le> length buf \<Longrightarrow> take n (store buf off bs) = take n buf"
  by (simp add: store_def min_def)

lemma nth_store:
  "off + length bs \<le> length buf \<Longrightarrow> j < length bs \<Longrightarrow>
   store buf off bs ! (off + j) = bs ! j"
  by (simp add: store_def nth_append)

lemma frame_refl: "frame n buf buf"
  by (simp add: frame_def)

lemma frame_store:
  assumes "frame n buf b" and "n \<le> off" and "off + length bs \<le> length buf"
  shows "frame n buf (store b off bs)"
proof -
  have l: "length b = length buf" and t: "take n b = take n buf"
    using assms(1) by (simp_all add: frame_def)
  have "length (store b off bs) = length buf"
    using assms(3) l by (simp add: length_store)
  moreover have "take n (store b off bs) = take n buf"
    using assms(2,3) l t by (simp add: take_store)
  ultimately show ?thesis by (simp add: frame_def)
qed

lemma setFloat32_frame:
  assumes "frame n buf b" and "n \<le> off" and "off + 4 \<le> length buf"
  shows "\<exists>r. setFloat32 f32 b off x = Inr r \<and> frame n buf r"
proof -
  have "length b = length buf"
    using assms(1) by (simp add: frame_def)
  then have "setFloat32 f32 b off x = Inr (store b off (le_bytes 4 (unat (f32 x))))"
    using assms(3) by (simp add: setFloat32_def)
  moreover have "frame n buf (store b off (le_bytes 4 (unat (f32 x))))"
    using assms by (intro frame_store) (simp_all add: length_le_bytes)
  ultimately show ?thesis by simp
qed

lemma setUint16_frame:
  assumes "frame n buf b" and "n \<le> off" and "off + 2 \<le> length buf"
  shows "\<exists>r. setUint16 b off v = Inr r \<and> frame n buf r"
proof -
  have "length b = length buf"
    using assms(1) by (simp add: frame_def)
  then have "setUint16 b off v = Inr (store b off (le_bytes 2 (v mod 2 ^ 16)))"
    using assms(3) by (simp add: setUint16_def)
  moreover have "frame n buf (store b off (le_bytes 2 (v mod 2 ^ 16)))"
    using assms by (intro frame_store) (simp_all add: length_le_bytes)
  ultimately show ?thesis by simp
qed

lemma thenE_frame:
  assumes "\<exists>b. m = Inr b \<and> frame n buf b"
    and "\<And>b. frame n buf b \<Longrightarrow> \<exists>r. f b = Inr r \<and> frame n buf r"
  shows "\<exists>r. thenE m f = Inr r \<and> frame n buf r"
  using assms by (auto simp: thenE_def)

text \<open>Every write of a record lies inside a buffer that has 50 bytes left at the offset.\<close>

lemma write_record_ok:
  assumes "offset + 50 \<le> length buf"
  shows "\<exists>r. write_record f32 nx ny nz v0 v1 v2 buf offset = Inr r \<and> frame offset buf r"
  unfolding write_record_def
  apply (insert assms)
  apply (rule thenE_frame, rule setFloat32_frame [OF frame_refl], simp, simp)
  apply ((rule thenE_frame, erule setFloat32_frame, simp, simp)+)
  apply (erule setUint16_frame, simp, simp)
  done

lemma write_triangle_ok:
  assumes "offset + 50 \<le> length buf"
  shows "\<exists>r. write_triangle f32 v0 v1 v2 buf offset = Inr r \<and> frame offset buf r"
  unfolding write_triangle_def Let_def using assms by (rule write_record_ok)

lemma frame_trans_take:
  assumes "frame n buf b1" and "frame (n + k) b1 b"
  shows "frame n buf b"
proof -
  have "take n b = take n (take (n + k) b)"
    by (simp add: min_def)
  also have "\<dots> = take n b1"
    using assms(2) by (simp add: frame_def min_def)
  finally show ?thesis
    using assms by (simp add: frame_def)
qed

lemma write_triangles_ok:
  assumes "list_all (face_in_range (length pts)) fs"
    and "offset + 50 * length fs \<le> length buf"
  shows "\<exists>b. write_triangles f32 pts fs buf offset = Inr b \<and> frame offset buf b"
  using assms
proof (induction fs arbitrary: buf offset)
  case Nil
  then show ?case by (simp add: frame_refl)
next
  case (Cons f fs)
  obtain i0 i1 i2 where f: "f = (i0, i1, i2)" by (cases f) auto
  from Cons.prems(1) f obtain v0 v1 v2
    where v: "js_nth pts i0 = Some v0" "js_nth pts i1 = Some v1" "js_nth pts i2 = Some v2"
    by (auto simp: face_in_range_def js_nth_def)
  from Cons.prems(2) have "offset + 50 \<le> length buf" by simp
  then obtain b1 where b1: "write_triangle f32 v0 v1 v2 buf offset = Inr b1"
    and f1: "frame offset buf b1"
    using write_triangle_ok by blast
  have "list_all (face_in_range (length pts)) fs"
    and "(offset + 50) + 50 * length fs \<le> length b1"
    using Cons.prems f1 by (simp_all add: frame_def)
  from Cons.IH [OF this] obtain b
    where b: "write_triangles f32 pts fs b1 (offset + 50) = Inr b"
      and fb: "frame (offset + 50) b1 b"
    by blast
  have "frame offset buf b"
    using f1 fb by (rule frame_trans_take)
  then show ?case
    using f v b1 b by (simp add: thenE_def)
qed

lemma write_header_ok:
  assumes "80 \<le> length buf"
  shows "\<exists>b. write_header buf i = Inr b \<and> length b = length buf"
  using assms
proof (induction buf i rule: write_header.induct)
  case (1 buf i)
  show ?case
  proof (cases "i < 80")
    case False
    then show ?thesis by (subst write_header.simps) simp
  next
    case True
    define v where "v = (if i < length header then of_char (header ! i) else (0::nat))"
    define buf' where "buf' = store buf i (le_bytes 1 (v mod 2 ^ 8))"
    have s: "setUint8 buf i v = Inr buf'"
      using True "1.prems" by (simp add: setUint8_def buf'_def)
    have l: "length buf' = length buf"
      using True "1.prems" by (simp add: buf'_def length_store length_le_bytes)
    have "write_header buf i = write_header buf' (i + 1)"
      using True s by (subst write_header.simps) (simp add: thenE_def v_def)
    moreover have "\<exists>b. write_header buf' (i + 1) = Inr b \<and> length b = length buf'"
      using "1.IH" [OF True, of buf'] l "1.prems" by simp
    ultimately show ?thesis using l by simp
  qed
qed

text \<open>Four little-endian bytes of a number below \<open>2^32\<close> read back as the number.\<close>

lemma le_bytes_4_value:
  fixes v :: nat
  assumes "v < 2 ^ 32"
  shows "unat (le_bytes 4 v ! 0) + 256 * unat (le_bytes 4 v ! 1) +
         256 ^ 2 * unat (le_bytes 4 v ! 2) + 256 ^ 3 * unat (le_bytes 4 v ! 3) = v"
proof -
  define a where "a = v div 256"
  define b where "b = a div 256"
  define c where "c = b div 256"
  have nth: "le_bytes 4 v ! j = (of_nat (v div 256 ^ j) :: byte)" if "j < 4" for j
    using that by (simp add: le_bytes_def)
  have u: "unat (of_nat n :: byte) = n mod 256" for n
    by (simp add: unat_of_nat)
  have d2: "v div 256 ^ 2 = b"
    by (simp add: a_def b_def div_mult2_eq power2_eq_square)
  have d3: "v div 256 ^ 3 = c"
    by (simp add: a_def b_def c_def div_mult2_eq power3_eq_cube)
  have "c < 256"
    using assms by (simp add: a_def b_def c_def div_mult2_eq less_mult_imp_div_less)
  then have c: "c mod 256 = c" by simp
  have v: "v = v mod 256 + 256 * a"
    by (simp add: a_def)
  have a: "a = a mod 256 + 256 * b"
    by (simp add: b_def)
  have b: "b = b mod 256 + 256 * c"
    by (simp add: c_def)
  have "unat (le_bytes 4 v ! 0) + 256 * unat (le_bytes 4 v ! 1) +
         256 ^ 2 * unat (le_bytes 4 v ! 2) + 256 ^ 3 * unat (le_bytes 4 v ! 3) =
        v mod 256 + 256 * (a mod 256) + 256 ^ 2 * (b mod 256) + 256 ^ 3 * c"
    using d2 d3 c by (simp add: nth u a_def)
  also have "\<dots> = v mod 256 + 256 * (a mod 256 + 256 * (b mod 256 + 256 * c))"
    by (simp add: algebra_simps)
  also have "\<dots> = v"
    using v a b by simp
  finally show ?thesis .
qed

section \<open>The claim about the STL emitter\<close>

text \<open>
  Claim C7. For every mesh with \<open>N\<close> triangles, \<open>generateSTL\<close> returns a buffer of
  exactly \<open>84 + 50 N\<close> bytes, and the little-endian unsigned 32-bit integer at offset 80
  of that buffer is \<open>N\<close>. A mesh is an array of vertices with an array of triangles
  whose indices are in range; a JavaScript array has fewer than \<open>2^32\<close> elements. The
  result holds for every encoding \<open>f32\<close> of the coordinates.
\<close>

theorem generateSTL_size_and_count:
  assumes "list_all (face_in_range (length (rawPoints code))) (rawFaces code)"
    and "length (rawFaces code) < 2 ^ 32"
  shows "\<exists>buf. generateSTL f32 code = Inr buf \<and>
           length buf = 84 + 50 * length (rawFaces code) \<and>
           getUint32 buf 80 = Inr (length (rawFaces code))"
proof -
  define N where "N = length (rawFaces code)"
  define buffer where "buffer = ArrayBuffer (84 + N * 50)"
  have lb: "length buffer = 84 + N * 50"
    by (simp add: buffer_def ArrayBuffer_def)
  obtain b1 where b1: "write_header buffer 0 = Inr b1" and l1: "length b1 = length buffer"
    using write_header_ok [of buffer 0] lb by auto
  define b2 where "b2 = store b1 80 (le_bytes 4 (N mod 2 ^ 32))"
  have s2: "setUint32 b1 80 N = Inr b2"
    using l1 lb by (simp add: setUint32_def b2_def)
  have l2: "length b2 = 84 + N * 50"
    using l1 lb by (simp add: b2_def length_store length_le_bytes)
  have "84 + 50 * length (rawFaces code) \<le> length b2"
    using l2 by (simp add: N_def)
  from write_triangles_ok [OF assms(1) this]
  obtain b where b: "write_triangles f32 (rawPoints code) (rawFaces code) b2 84 = Inr b"
    and fr: "frame 84 b2 b"
    by blast
  have gen: "generateSTL f32 code = Inr b"
    using b1 s2 b by (simp add: generateSTL_def Let_def thenE_def N_def buffer_def)
  have len: "length b = 84 + 50 * N"
    using fr l2 by (simp add: frame_def)
  have nth: "b ! (80 + j) = le_bytes 4 N ! j" if "j < 4" for j
  proof -
    have "b ! (80 + j) = take 84 b ! (80 + j)"
      using that by simp
    also have "\<dots> = b2 ! (80 + j)"
      using fr that by (simp add: frame_def)
    also have "\<dots> = le_bytes 4 (N mod 2 ^ 32) ! j"
      unfolding b2_def using that l1 lb by (intro nth_store) (simp_all add: length_le_bytes)
    finally show ?thesis
      using assms(2) by (simp add: N_def)
  qed
  have "N < 2 ^ 32"
    using assms(2) by (simp add: N_def)
  from le_bytes_4_value [OF this]
  have "unat (b ! 80) + 256 * unat (b ! 81) + 256 ^ 2 * unat (b ! 82) +
        256 ^ 3 * unat (b ! 83) = N"
    using nth [of 0] nth [of 1] nth [of 2] nth [of 3] by simp
  then have "getUint32 b 80 = Inr N"
    using len by (simp add: getUint32_def)
  then show ?thesis
    using gen len by (simp add: N_def)
qed

theorem generateSTL_size_and_count_witness:
  "list_all (face_in_range (length (rawPoints sample_mesh))) (rawFaces sample_mesh) \<and>
   length (rawFaces sample_mesh) < 2 ^ 32 \<and>
   (\<exists>buf. generateSTL (\<lambda>x. 0) sample_mesh = Inr buf \<and>
      length buf = 134 \<and> getUint32 buf 80 = Inr 1)"
proof -
  have valid: "list_all (face_in_range (length (rawPoints sample_mesh))) (rawFaces sample_mesh)"
    by (simp add: sample_mesh_def face_in_range_def)
  have small: "length (rawFaces sample_mesh) < 2 ^ 32"
    by (simp add: sample_mesh_def)
  have "length (rawFaces sample_mesh) = 1"
    by (simp add: sample_mesh_def)
  with generateSTL_size_and_count [OF valid small, of "\<lambda>x. 0"] valid small
  show ?thesis by simp
qed

section \<open>The claim about coincident endpoints\<close>

declare vincenty_loop.simps [simp del]

text \<open>The reduced latitude of a finite latitude is a finite number, also at the poles.\<close>

lemma jatan_finite:
  assumes "y \<noteq> NaN"
  shows "\<exists>u. jatan y = Num u"
proof (cases y)
  case (Num a)
  then show ?thesis by simp
next
  case PosInf
  then show ?thesis by (intro exI [of _ "pi / 2"]) simp
next
  case NegInf
  then show ?thesis by (intro exI [of _ "- (pi / 2)"]) simp
next
  case NaN
  with assms show ?thesis by simp
qed

lemma reduced_latitude_finite:
  "\<exists>u. jatan ((Num 1 - Num wgs84_f) * jtan (toRad (Num lat))) = Num u"
proof (rule jatan_finite)
  have pos: "0 < 1 - wgs84_f"
    by (simp add: wgs84_f_def)
  define x where "x = lat * pi / 180"
  have x: "toRad (Num lat) = Num x"
    by (simp add: toRad_def x_def)
  show "(Num 1 - Num wgs84_f) * jtan (toRad (Num lat)) \<noteq> NaN"
    using pos by (simp add: x signed_inf_def)
qed

lemma vincenty_loop_coincident:
  "vincenty_loop (Num 0) (Num s) (Num c) (Num s) (Num c) limit (Num 0) = Inl (Num 0)"
  by (subst vincenty_loop.simps) (simp add: Let_def)

text \<open>
  With equal latitudes and equal longitudes the longitude difference is 0 and the two
  reduced latitudes are equal, so the first iteration computes \<open>sinSigma = 0\<close>.
\<close>

lemma distVincenty_same_point:
  "distVincenty (Num lat) (Num lon) (Num lat) (Num lon) = Num 0"
proof -
  obtain u where u: "jatan ((Num 1 - Num wgs84_f) * jtan (toRad (Num lat))) = Num u"
    using reduced_latitude_finite by blast
  have L: "toRad (Num lon - Num lon) = Num 0"
    by (simp add: toRad_def)
  show ?thesis
    unfolding distVincenty_def Let_def u L
    by (simp add: vincenty_loop_coincident)
qed

text \<open>
  Claim C8. For every geographic point, given by a finite latitude and a finite longitude,
  \<open>distVincenty\<close> of the point and itself returns exactly 0.
\<close>

theorem distVincenty_coincident:
  "distVincenty (Num lat) (Num lon) (Num lat) (Num lon) = Num 0"
  by (rule distVincenty_same_point)

section \<open>The claim about equatorial antipodes\<close>















section \<open>A quarter of a meridian\<close>

lemma quarter_meridian_pos: "0 < quarter_meridian"
  by (simp add: quarter_meridian_def Let_def wgs84_a_def wgs84_b_def)

lemma equator_latitude: "jatan ((Num 1 - Num wgs84_f) * jtan (toRad (Num 0))) = Num 0"
  by (simp add: toRad_def)

lemma pole_latitude: "jatan ((Num 1 - Num wgs84_f) * jtan (toRad (Num 90))) = Num (pi / 2)"
  by (simp add: toRad_def signed_inf_def wgs84_f_def)

lemma vincenty_loop_to_pole:
  "vincenty_loop (Num 0) (Num 0) (Num 1) (Num 1) (Num 0) 100 (Num 0) =
     Inr \<lparr>sinSigma = Num 1, cosSigma = Num 0, sigma = Num (pi / 2),
          cosSqAlpha = Num 1, cos2SigmaM = Num 0, iterLimit = 100\<rparr>"
  by (subst vincenty_loop.simps) (simp add: Let_def atan2_def)

lemma wgs84_b_nonzero: "wgs84_b \<noteq> 0"
  by (simp add: wgs84_b_def)

lemma distVincenty_to_pole:
  "distVincenty (Num 0) (Num 0) (Num 90) (Num 0) = Num quarter_meridian"
  unfolding distVincenty_def Let_def equator_latitude pole_latitude
  by (simp add: toRad_def vincenty_loop_to_pole quarter_meridian_def Let_def
        wgs84_b_nonzero)

section \<open>Facts about the distance filter\<close>

lemma distVincenty_from_pole:
  "distVincenty (Num 90) (Num 0) (Num 0) (Num 0) = Num quarter_meridian"
proof -
  have loop: "vincenty_loop (Num 0) (Num 1) (Num 0) (Num 0) (Num 1) 100 (Num 0) =
     Inr \<lparr>sinSigma = Num 1, cosSigma = Num 0, sigma = Num (pi / 2),
          cosSqAlpha = Num 1, cos2SigmaM = Num 0, iterLimit = 100\<rparr>"
    by (subst vincenty_loop.simps) (simp add: Let_def atan2_def)
  show ?thesis
    unfolding distVincenty_def Let_def equator_latitude pole_latitude
    by (simp add: toRad_def loop quarter_meridian_def Let_def wgs84_b_nonzero)
qed

text \<open>A quarter of a meridian is longer than the semi-minor axis.\<close>

lemma quarter_meridian_large: "1000 \<le> quarter_meridian"
proof -
  define u where "u = 1 * (wgs84_a * wgs84_a - wgs84_b * wgs84_b) / (wgs84_b * wgs84_b)"
  define A where "A = 1 + u / 16384 * (4096 + u * (- 768 + u * (320 - 175 * u)))"
  have A: "1 \<le> A"
    by (simp add: A_def u_def wgs84_a_def wgs84_b_def)
  have b: "1000 \<le> wgs84_b"
    by (simp add: wgs84_b_def)
  have p: "1 \<le> pi / 2"
    using pi_ge_two by simp
  have "1000 * 1 * 1 \<le> wgs84_b * A * (pi / 2)"
    using A b p by (intro mult_mono) simp_all
  moreover have "quarter_meridian = wgs84_b * A * (pi / 2)"
    by (simp add: quarter_meridian_def Let_def A_def u_def)
  ultimately show ?thesis by simp
qed

text \<open>
  While the loop runs, \<open>pre\<close> is the index of the last kept point. With a positive
  minimum distance the loop keeps exactly the points that the specification keeps.
\<close>

lemma distFilter_loop_spec:
  assumes "filteredPts st = ks @ [k]" and "pre st = length ks" and "Num 0 < mindist"
  shows "\<exists>st'. distFilter_loop mindist ps st = Inr st' \<and>
           filteredPts st' = ks @ k # spec_filter mindist k ps"
  using assms
proof (induction ps arbitrary: st ks k)
  case Nil
  then show ?case by simp
next
  case (Cons p ps)
  have q: "js_nth (filteredPts st) (int (pre st)) = Some k"
    using Cons.prems(1,2) by (simp add: js_nth_def)
  have nz: "\<not> jeq mindist (Num 0)"
    using Cons.prems(3) by (cases mindist) auto
  show ?case
  proof (cases "point_distance p k \<ge> mindist")
    case True
    define st1 where "st1 = \<lparr>filteredPts = filteredPts st @ [p],
        filteredDst = filteredDst st @ [distVincenty (c1 p) (c0 p) (c1 k) (c0 k)],
        total_dist = total_dist st + distVincenty (c1 p) (c0 p) (c1 k) (c0 k),
        pre = pre st + 1\<rparr>"
    have step: "distFilter_loop mindist (p # ps) st = distFilter_loop mindist ps st1"
      using q True by (simp add: Let_def point_distance_def st1_def)
    have "filteredPts st1 = (ks @ [k]) @ [p]" and "pre st1 = length (ks @ [k])"
      using Cons.prems(1,2) by (simp_all add: st1_def)
    from Cons.IH [OF this Cons.prems(3)] show ?thesis
      using step True by simp
  next
    case False
    have step: "distFilter_loop mindist (p # ps) st = distFilter_loop mindist ps st"
      using q False nz by (simp add: Let_def point_distance_def)
    from Cons.IH [OF Cons.prems] show ?thesis
      using step False by simp
  qed
qed

lemma distFilter_loop_zero:
  assumes "filteredPts st = ks @ [k]" and "pre st = length ks"
  shows "\<exists>st'. distFilter_loop (Num 0) ps st = Inr st' \<and> filteredPts st' = ks @ k # ps"
  using assms
proof (induction ps arbitrary: st ks k)
  case Nil
  then show ?case by simp
next
  case (Cons p ps)
  have q: "js_nth (filteredPts st) (int (pre st)) = Some k"
    using Cons.prems by (simp add: js_nth_def)
  define st1 where "st1 = \<lparr>filteredPts = filteredPts st @ [p],
      filteredDst = filteredDst st @ [distVincenty (c1 p) (c0 p) (c1 k) (c0 k)],
      total_dist = total_dist st + distVincenty (c1 p) (c0 p) (c1 k) (c0 k),
      pre = pre st + 1\<rparr>"
  have step: "distFilter_loop (Num 0) (p # ps) st = distFilter_loop (Num 0) ps st1"
    using q by (simp add: Let_def st1_def)
  have "filteredPts st1 = (ks @ [k]) @ [p]" and "pre st1 = length (ks @ [k])"
    using Cons.prems by (simp_all add: st1_def)
  from Cons.IH [OF this] show ?case
    using step by simp
qed

text \<open>Consecutive points kept by the specification's filter are at least \<open>mindist\<close> apart.\<close>

lemma spec_filter_spaced:
  "successively (\<lambda>a b. point_distance b a \<ge> mindist) (k # spec_filter mindist k ps)"
  by (induction ps arbitrary: k) simp_all

section \<open>The claim about the distance filter\<close>

text \<open>
  Claim C4. For every raw point list \<open>p # ps\<close> and every minimum distance
  \<open>m > 0\<close>, the distance filter keeps the first raw point; each later point is kept iff
  its Vincenty distance to the last kept point is at least \<open>m\<close> (the kept points are
  those of \<open>spec_filter\<close>); hence every two adjacent kept points are at least \<open>m\<close>
  apart. With \<open>m = 0\<close> every point is kept.
\<close>

theorem distFilter_keeps_spaced_points:
  assumes "Num 0 < m"
  shows "(\<exists>st. distFilter m (p # ps) = Inr st \<and>
            hd (filteredPts st) = p \<and>
            filteredPts st = p # spec_filter m p ps \<and>
            successively (\<lambda>a b. point_distance b a \<ge> m) (filteredPts st)) \<and>
         (\<exists>st. distFilter (Num 0) (p # ps) = Inr st \<and> filteredPts st = p # ps)"
proof
  define st0 where "st0 = \<lparr>filteredPts = [p], filteredDst = [], total_dist = Num 0, pre = 0\<rparr>"
  have init: "filteredPts st0 = [] @ [p]" "pre st0 = length ([] :: vec3 list)"
    by (simp_all add: st0_def)
  from distFilter_loop_spec [OF init assms, of ps]
  obtain st where "distFilter_loop m ps st0 = Inr st"
    and kept: "filteredPts st = p # spec_filter m p ps"
    by auto
  then have "distFilter m (p # ps) = Inr st"
    by (simp add: distFilter_def st0_def)
  moreover have "successively (\<lambda>a b. point_distance b a \<ge> m) (filteredPts st)"
    unfolding kept by (rule spec_filter_spaced)
  ultimately show "\<exists>st. distFilter m (p # ps) = Inr st \<and>
            hd (filteredPts st) = p \<and>
            filteredPts st = p # spec_filter m p ps \<and>
            successively (\<lambda>a b. point_distance b a \<ge> m) (filteredPts st)"
    using kept by simp
  from distFilter_loop_zero [OF init, of ps]
  show "\<exists>st. distFilter (Num 0) (p # ps) = Inr st \<and> filteredPts st = p # ps"
    by (simp add: distFilter_def st0_def)
qed

theorem distFilter_keeps_spaced_points_witness:
  "Num 0 < Num 1000 \<and>
   (\<exists>st. distFilter (Num 1000) sample_track = Inr st \<and> filteredPts st = sample_track) \<and>
   (\<exists>st. distFilter (Num 1000) [hd sample_track, hd sample_track] = Inr st \<and>
      filteredPts st = [hd sample_track])"
proof -
  have far: "Num 1000 \<le> Num quarter_meridian"
    using quarter_meridian_large by simp
  have pos: "Num 0 < Num 1000" by simp
  have d1: "point_distance (Num 0, Num 90, Num 0) (Num 0, Num 0, Num 0) = Num quarter_meridian"
    by (simp add: point_distance_def distVincenty_from_pole)
  have d2: "point_distance (Num 0, Num 0, Num 0) (Num 0, Num 0, Num 0) = Num 0"
    by (simp add: point_distance_def distVincenty_same_point)
  from distFilter_keeps_spaced_points [OF pos, of "(Num 0, Num 0, Num 0)" "[(Num 0, Num 90, Num 0)]"]
    distFilter_keeps_spaced_points [OF pos, of "(Num 0, Num 0, Num 0)" "[(Num 0, Num 0, Num 0)]"]
  show ?thesis
    using far by (auto simp: d1 d2 sample_track_def)
qed

section \<open>The claim about the markers\<close>

text \<open>
  Claim C1 holds that a scan with \<open>markerInterval = L / N\<close> places exactly \<open>N\<close>
  markers, however the raw points cut the total distance \<open>L\<close> into segments. The
  loop places at most one marker in an iteration. On the sample track, a single segment of
  length \<open>L = quarter_meridian\<close>, the interval \<open>L / 2\<close> yields one marker, at
  the position \<open>L / 2\<close>, and not two.
\<close>

theorem long_segment_single_marker:
  "totaldist (scan_points_loop marker_options (hd sample_track) (tl sample_track)) =
     Num quarter_meridian \<and>
   markerInterval marker_options = Num (quarter_meridian / 2) \<and>
   map pos (markerObjs (scan_points_loop marker_options (hd sample_track) (tl sample_track))) =
     [Num (quarter_meridian / 2)]"
proof -
  have pos: "0 < quarter_meridian"
    by (rule quarter_meridian_pos)
  show ?thesis
    using pos
    by (simp add: scan_points_loop_def sample_track_def scan_init_def scan_step_def Let_def
          marker_options_def sample_options_def distVincenty_to_pole)
qed

section \<open>Facts about the generator\<close>

lemma fst_scanPoints:
  "fst (scanPoints lib c h) =
     (case caller_points h of
        [] \<Rightarrow> h
      | p0 # rest \<Rightarrow>
          h\<lparr>caller_options :=
               configure_projection (scan_points_loop (caller_options h) p0 rest)
                 (caller_options h)\<rparr>)"
  by (simp add: scanPoints_def Let_def split: list.splits)

lemma fst_generate:
  "fst (generate lib h) = fst (scanPoints lib (initial_ctx (caller_options h)) h)"
  by (simp add: generate_def Let_def split: prod.splits)

lemma configure_projection_other_fields:
  "(configure_projection st opts)\<lparr>projection := projection opts\<rparr> = opts"
  by (simp add: configure_projection_def Let_def)

text \<open>Without a positive marker interval the scan loop places no marker.\<close>

lemma scan_loop_rawpoints:
  "rawpoints (scan_loop opts prev i rest st) = rawpoints st @ rest"
  by (induction rest arbitrary: prev i st) (simp_all add: scan_step_def Let_def)

lemma scan_loop_no_markers:
  assumes "\<not> Num 0 < markerInterval opts"
  shows "markerObjs (scan_loop opts prev i rest st) = markerObjs st"
  using assms
  by (induction rest arbitrary: prev i st) (simp_all add: scan_step_def Let_def)

lemma projectPoint_ok:
  assumes "projector c = Some forward"
  shows "\<exists>v. projectPoint opts c p cdr = Inr v"
  using assms by (simp add: projectPoint_def del: split_paired_Ex)

lemma projectPoints_loop_ok:
  assumes "projector c = Some forward"
  shows "\<exists>b' pp. projectPoints_loop opts c i ps cdist b acc = Inr (b', pp) \<and>
           length pp = length acc + length ps"
proof (induction ps arbitrary: i cdist b acc)
  case Nil
  show ?case by simp
next
  case (Cons p ps)
  obtain v where v: "projectPoint opts c p ((cdist + nth_num (d c) (int i - 1)) / smoothTotal c) = Inr v"
    using projectPoint_ok [OF assms] by blast
  from Cons.IH [of "i + 1" "cdist + nth_num (d c) (int i - 1)" "Bounds_update b v" "acc @ [v]"]
  show ?case
    using v by (simp add: Let_def thenE_def)
qed

lemma projectPoints_ok:
  assumes "projector c = Some forward" and "ll c = p # ps" and "projectedPoints c = []"
  shows "\<exists>c'. projectPoints opts c = Inr c' \<and>
           length (projectedPoints c') = Suc (length ps) \<and>
           (\<exists>b off sc. ctx_bounds c' = Some b \<and> ctx_offset c' = Some off \<and>
              ctx_scale c' = Some sc)"
proof -
  obtain xyz where xyz: "projectPoint opts c p (Num 0) = Inr xyz"
    using projectPoint_ok [OF assms(1)] by blast
  obtain b pp where loop: "projectPoints_loop opts c 1 ps (Num 0) (Bounds_new xyz) [xyz] = Inr (b, pp)"
    and len: "length pp = length [xyz] + length ps"
    using projectPoints_loop_ok [OF assms(1)] by blast
  show ?thesis
    using xyz loop len assms(2,3)
    by (simp add: projectPoints_def thenE_def Let_def del: split_paired_Ex)
qed

text \<open>
  With at least one point, no marker interval, manual smoothing at distance 0 and a
  projection that the library accepts, the scan keeps every point.
\<close>

lemma scanPoints_ok:
  assumes pts: "caller_points h = p0 # rest"
    and nomark: "\<not> Num 0 < markerInterval (caller_options h)"
    and manual: "smoothtype (caller_options h) \<noteq> 0"
    and span: "smoothspan (caller_options h) = Num 0"
    and known: "lib (projection (caller_options (fst (scanPoints lib c h)))) = Some forward"
  shows "\<exists>c'. snd (scanPoints lib c h) = Inr c' \<and> ll c' = p0 # rest \<and>
           projector c' = Some forward \<and> projectedPoints c' = projectedPoints c \<and>
           markers c' = markers c"
proof -
  define st where "st = scan_points_loop (caller_options h) p0 rest"
  define opts where "opts = configure_projection st (caller_options h)"
  have lib: "lib (projection opts) = Some forward"
    using known pts by (simp add: fst_scanPoints opts_def st_def)
  have raw: "rawpoints st = p0 # rest"
    by (simp add: st_def scan_points_loop_def scan_loop_rawpoints scan_init_def)
  have nm: "markerObjs st = []"
    using nomark by (simp add: st_def scan_points_loop_def scan_loop_no_markers scan_init_def)
  have sm: "smoothtype opts \<noteq> 0" "smoothspan opts = Num 0"
    using manual span by (simp_all add: opts_def configure_projection_def Let_def)
  obtain fs where fs: "distFilter (Num 0) (p0 # rest) = Inr fs" and kept: "filteredPts fs = p0 # rest"
  proof -
    define st0 where "st0 = \<lparr>filteredPts = [p0], filteredDst = [], total_dist = Num 0, pre = 0\<rparr>"
    have "filteredPts st0 = [] @ [p0]" "pre st0 = length ([] :: vec3 list)"
      by (simp_all add: st0_def)
    from distFilter_loop_zero [OF this, of rest] that show ?thesis
      by (auto simp: distFilter_def st0_def)
  qed
  show ?thesis
    using pts lib raw nm sm fs kept
    by (simp add: scanPoints_def Let_def thenE_def smoothing_distance_def
          st_def [symmetric] opts_def [symmetric])
qed

lemma processPath_ok:
  assumes "2 \<le> length pts"
  shows "\<exists>mc. processPath opts pts ms = Inr mc"
proof -
  obtain st where "processPath_loop opts pts 0 init_path_state = Inr st"
    using processPath_loop_succeeds [OF assms] by blast
  then show ?thesis by (simp add: processPath_def)
qed

lemma generate_ok:
  assumes pts: "caller_points h = p0 # p1 # rest"
    and nomark: "\<not> Num 0 < markerInterval (caller_options h)"
    and manual: "smoothtype (caller_options h) \<noteq> 0"
    and span: "smoothspan (caller_options h) = Num 0"
    and known: "lib (projection (caller_options (fst (generate lib h)))) = Some forward"
  shows "\<exists>art. snd (generate lib h) = Inr art"
proof -
  define c0 where "c0 = initial_ctx (caller_options h)"
  define h' where "h' = fst (scanPoints lib c0 h)"
  have known': "lib (projection (caller_options (fst (scanPoints lib c0 h)))) = Some forward"
    using known by (simp add: fst_generate c0_def)
  from scanPoints_ok [where lib = lib and c = c0 and forward = forward,
      OF pts nomark manual span known']
  obtain c1 where c1: "snd (scanPoints lib c0 h) = Inr c1" and ll1: "ll c1 = p0 # p1 # rest"
    and pr: "projector c1 = Some forward" and pp: "projectedPoints c1 = []"
    by (auto simp: c0_def initial_ctx_def)
  from projectPoints_ok [OF pr ll1 pp, of "caller_options h'"]
  obtain c2 b off sc where c2: "projectPoints (caller_options h') c1 = Inr c2"
    and len: "length (projectedPoints c2) = Suc (length (p1 # rest))"
    and some: "ctx_bounds c2 = Some b" "ctx_offset c2 = Some off" "ctx_scale c2 = Some sc"
    by blast
  define out where "out = map (fit (caller_options h') sc
      (calculateZScale (caller_options h') c2 b sc) off) (projectedPoints c2)"
  have "2 \<le> length out"
    using len by (simp add: out_def)
  from processPath_ok [OF this]
  obtain mc where mc: "processPath (caller_options h') out
      (map (\<lambda>m. \<lparr>location = fit (caller_options h') sc
                      (calculateZScale (caller_options h') c2 b sc) off (location m),
                   orientation = orientation m\<rparr>) (markers c2)) = Inr mc"
    by blast
  have sp: "scanPoints lib c0 h = (h', Inr c1)"
    using c1 by (simp add: h'_def prod_eq_iff)
  show ?thesis
    using sp c2 some mc
    by (simp add: generate_def Let_def thenE_def c0_def [symmetric] out_def)
qed

section \<open>The claims about the generator's inputs and options\<close>

text \<open>
  Claim C2, as stated, fails: with \<open>projtype = 0\<close> the generator assigns
  \<open>"GOOGLE"\<close> to \<open>ctx.options.projection\<close>, and \<open>ctx.options\<close> is the caller's
  options object. After the sample call the options differ from the options passed in.
\<close>

theorem generate_overwrites_projection:
  "caller_options (fst (generate sample_proj4 sample_call)) \<noteq> caller_options sample_call"
proof -
  have "projection (caller_options (fst (generate sample_proj4 sample_call))) = js_string ''GOOGLE''"
    by (simp add: fst_generate fst_scanPoints sample_call_def sample_track_def
          configure_projection_def sample_options_def PROJ_UTM_def PROJ_GOOGLE_def)
  moreover have "projection (caller_options sample_call) = []"
    by (simp add: sample_call_def sample_options_def)
  moreover have "js_string ''GOOGLE'' \<noteq> []"
    by (simp add: js_string_def)
  ultimately show ?thesis by auto
qed

text \<open>
  Claim C2, amended. \<open>generate\<close> leaves the points array unchanged and writes no
  field of the options record other than \<open>projection\<close>. When the points array is not
  empty, \<open>options.projection\<close> is overwritten with \<open>"GOOGLE"\<close> for
  \<open>projtype = 0\<close> and with the UTM definition of the midpoint of the geographic bounds
  for \<open>projtype = 2\<close>; for every other \<open>projtype\<close>, and for an empty points array,
  the options are unchanged. This holds whether the call returns or throws.
\<close>

theorem generate_writes_only_projection:
  "caller_points (fst (generate lib h)) = caller_points h \<and>
   (caller_options (fst (generate lib h)))\<lparr>projection := projection (caller_options h)\<rparr> =
     caller_options h \<and>
   (caller_points h = [] \<or>
      (projtype (caller_options h) \<noteq> PROJ_GOOGLE \<and> projtype (caller_options h) \<noteq> PROJ_UTM)
    \<longrightarrow> fst (generate lib h) = h) \<and>
   (caller_points h \<noteq> [] \<and> projtype (caller_options h) = PROJ_GOOGLE
    \<longrightarrow> projection (caller_options (fst (generate lib h))) = js_string ''GOOGLE'') \<and>
   (\<forall>p0 rest. caller_points h = p0 # rest \<and> projtype (caller_options h) = PROJ_UTM
    \<longrightarrow> projection (caller_options (fst (generate lib h))) =
        (let st = scan_points_loop (caller_options h) p0 rest
         in UTM_proj ((minLat st + maxLat st) / Num 2) ((minLon st + maxLon st) / Num 2)))"
proof (cases "caller_points h")
  case Nil
  then show ?thesis
    by (simp add: fst_generate fst_scanPoints)
next
  case (Cons p0 rest)
  then show ?thesis
    by (simp add: fst_generate fst_scanPoints configure_projection_other_fields)
      (simp add: configure_projection_def Let_def PROJ_UTM_def PROJ_GOOGLE_def)
qed

theorem generate_writes_only_projection_witness:
  "caller_points sample_call \<noteq> [] \<and> projtype (caller_options sample_call) = PROJ_GOOGLE \<and>
   caller_points (fst (generate sample_proj4 sample_call)) = sample_track \<and>
   caller_options (fst (generate sample_proj4 sample_call)) =
     sample_options\<lparr>projection := js_string ''GOOGLE''\<rparr>"
proof -
  have pts: "caller_points sample_call \<noteq> []"
    by (simp add: sample_call_def sample_track_def)
  have pt: "projtype (caller_options sample_call) = PROJ_GOOGLE"
    by (simp add: sample_call_def sample_options_def PROJ_GOOGLE_def)
  define opts' where "opts' = caller_options (fst (generate sample_proj4 sample_call))"
  from generate_writes_only_projection [of sample_proj4 sample_call] pts pt
  have same: "caller_points (fst (generate sample_proj4 sample_call)) = sample_track"
    and rest: "opts'\<lparr>projection := projection sample_options\<rparr> = sample_options"
    and proj: "projection opts' = js_string ''GOOGLE''"
    by (simp_all add: opts'_def sample_call_def)
  have "opts' = (opts'\<lparr>projection := projection sample_options\<rparr>)\<lparr>projection := js_string ''GOOGLE''\<rparr>"
    using proj by simp
  then have "opts' = sample_options\<lparr>projection := js_string ''GOOGLE''\<rparr>"
    using rest by simp
  then show ?thesis
    using pts pt same by (simp add: opts'_def)
qed

text \<open>
  Claim C3, as stated, fails: the generator validates no option. On the sample track with
  \<open>vertical = 0.5\<close>, below the stated range, it reports no error and returns an
  artifact.
\<close>

theorem generate_accepts_low_vertical:
  "vertical (caller_options low_vertical_call) < Num 1 \<and>
   \<not> isl (snd (generate sample_proj4 low_vertical_call))"
proof -
  have pts: "caller_points low_vertical_call =
      (Num 0, Num 0, Num 0) # (Num 0, Num 90, Num 0) # []"
    by (simp add: low_vertical_call_def sample_track_def)
  have nomark: "\<not> Num 0 < markerInterval (caller_options low_vertical_call)"
    and manual: "smoothtype (caller_options low_vertical_call) \<noteq> 0"
    and span: "smoothspan (caller_options low_vertical_call) = Num 0"
    by (simp_all add: low_vertical_call_def sample_options_def)
  have "projection (caller_options (fst (generate sample_proj4 low_vertical_call))) = js_string ''GOOGLE''"
    by (simp add: fst_generate fst_scanPoints low_vertical_call_def sample_track_def
          configure_projection_def sample_options_def PROJ_UTM_def PROJ_GOOGLE_def)
  then have known: "sample_proj4
      (projection (caller_options (fst (generate sample_proj4 low_vertical_call)))) =
      Some (\<lambda>(lon, lat). (Num wgs84_a * toRad lon, Num wgs84_a * toRad lat))"
    by (simp add: sample_proj4_def)
  from generate_ok [where lib = sample_proj4, OF pts nomark manual span known]
  obtain art where "snd (generate sample_proj4 low_vertical_call) = Inr art"
    by blast
  moreover have "vertical (caller_options low_vertical_call) < Num 1"
    by (simp add: low_vertical_call_def sample_options_def)
  ultimately show ?thesis by simp
qed

text \<open>
  A finite number is not below a bound exactly when it is at least the bound; half of a
  number is finite exactly when the number is.
\<close>

lemma finite_not_less: "isFinite v \<Longrightarrow> (\<not> v < Num c) = (Num c \<le> v)"
  by (cases v) auto

lemma half_finite: "isFinite (v / Num 2) = isFinite v"
  by (cases v) (simp_all add: signed_inf_def)

lemma half_below_half: "isFinite v \<Longrightarrow> (v / Num 2 < Num (1 / 2)) = (v < Num 1)"
  by (cases v) auto

text \<open>
  Claim C3, amended. The stated ranges are enforced by the form collector, not by the
  generator. \<open>collectOptions\<close> returns \<open>null\<close> exactly when the form has a
  \<open>vertical\<close> that is not finite or below 1, a width or depth (\<open>bedx\<close>,
  \<open>bedy\<close>) that is not finite or below 20, a path width that is not finite or below 1
  (\<open>buffer\<close> below 0.5), or, with \<open>projtype = 1\<close>, a custom projection that is
  empty once trimmed. \<open>generateModel\<close> then does not call the generator, so neither an
  artifact nor a generator error results. Whenever \<open>generateModel\<close> does run the
  generator, the options it passes are within every one of these ranges.
\<close>

theorem collectOptions_enforces_ranges:
  "(collectOptions fm = None \<longleftrightarrow>
      (\<not> isFinite (f_vertical fm) \<or> f_vertical fm < Num 1 \<or>
       \<not> isFinite (f_width fm) \<or> f_width fm < Num 20 \<or>
       \<not> isFinite (f_depth fm) \<or> f_depth fm < Num 20 \<or>
       \<not> isFinite (f_pathWidth fm) \<or> f_pathWidth fm < Num 1 \<or>
       (f_proj fm = 1 \<and> list_all is_white_space (f_projection fm)))) \<and>
   (collectOptions fm = None \<longrightarrow> generateModel lib gpxData fm = None) \<and>
   (\<forall>r. generateModel lib gpxData fm = Some r \<longrightarrow>
      (\<exists>pts opts.
         gpxData = Some pts \<and> opts = form_options fm \<and>
         r = generate lib \<lparr>caller_points = pts, caller_options = opts\<rparr> \<and>
         isFinite (vertical opts) \<and> Num 1 \<le> vertical opts \<and>
         isFinite (bedx opts) \<and> Num 20 \<le> bedx opts \<and>
         isFinite (bedy opts) \<and> Num 20 \<le> bedy opts \<and>
         isFinite (buffer opts) \<and> Num (1 / 2) \<le> buffer opts \<and>
         (projtype opts = 1 \<longrightarrow> \<not> blank (projection opts))))"
proof (intro conjI allI impI)
  have fields: "vertical (form_options fm) = f_vertical fm" "bedx (form_options fm) = f_width fm"
    "bedy (form_options fm) = f_depth fm" "buffer (form_options fm) = f_pathWidth fm / Num 2"
    "projtype (form_options fm) = f_proj fm" "projection (form_options fm) = f_projection fm"
    by (simp_all add: form_options_def)
  have buf: "(\<not> isFinite (f_pathWidth fm / Num 2) \<or> f_pathWidth fm / Num 2 < Num (1 / 2)) =
             (\<not> isFinite (f_pathWidth fm) \<or> f_pathWidth fm < Num 1)"
    using half_finite [of "f_pathWidth fm"] half_below_half [of "f_pathWidth fm"] by blast
  have none: "collectOptions fm = None \<longleftrightarrow>
      (\<not> isFinite (f_vertical fm) \<or> f_vertical fm < Num 1 \<or>
       \<not> isFinite (f_width fm) \<or> f_width fm < Num 20 \<or>
       \<not> isFinite (f_depth fm) \<or> f_depth fm < Num 20 \<or>
       (\<not> isFinite (f_pathWidth fm / Num 2) \<or> f_pathWidth fm / Num 2 < Num (1 / 2)) \<or>
       (f_proj fm = 1 \<and> list_all is_white_space (f_projection fm)))"
    unfolding collectOptions_def Let_def fields blank_def by (auto split: if_splits)
  show "collectOptions fm = None \<longleftrightarrow>
      (\<not> isFinite (f_vertical fm) \<or> f_vertical fm < Num 1 \<or>
       \<not> isFinite (f_width fm) \<or> f_width fm < Num 20 \<or>
       \<not> isFinite (f_depth fm) \<or> f_depth fm < Num 20 \<or>
       \<not> isFinite (f_pathWidth fm) \<or> f_pathWidth fm < Num 1 \<or>
       (f_proj fm = 1 \<and> list_all is_white_space (f_projection fm)))"
    using none buf by blast
  show "generateModel lib gpxData fm = None" if "collectOptions fm = None"
    using that by (simp add: generateModel_def split: option.splits)
  fix r
  assume run: "generateModel lib gpxData fm = Some r"
  then obtain pts where pts: "gpxData = Some pts"
    by (cases gpxData) (simp_all add: generateModel_def)
  from run pts obtain opts where some: "collectOptions fm = Some opts"
    and r: "r = generate lib \<lparr>caller_points = pts, caller_options = opts\<rparr>"
    by (cases "collectOptions fm") (simp_all add: generateModel_def)
  have opts: "opts = form_options fm"
    using some by (simp add: collectOptions_def Let_def split: if_splits)
  from some none have ok: "isFinite (f_vertical fm)" "\<not> f_vertical fm < Num 1"
    "isFinite (f_width fm)" "\<not> f_width fm < Num 20"
    "isFinite (f_depth fm)" "\<not> f_depth fm < Num 20"
    "isFinite (f_pathWidth fm / Num 2)" "\<not> f_pathWidth fm / Num 2 < Num (1 / 2)"
    "\<not> (f_proj fm = 1 \<and> list_all is_white_space (f_projection fm))"
    by auto
  have "isFinite (vertical opts) \<and> Num 1 \<le> vertical opts \<and>
        isFinite (bedx opts) \<and> Num 20 \<le> bedx opts \<and>
        isFinite (bedy opts) \<and> Num 20 \<le> bedy opts \<and>
        isFinite (buffer opts) \<and> Num (1 / 2) \<le> buffer opts \<and>
        (projtype opts = 1 \<longrightarrow> \<not> blank (projection opts))"
    unfolding opts fields blank_def
    using ok finite_not_less [OF ok(1), of 1] finite_not_less [OF ok(3), of 20]
      finite_not_less [OF ok(5), of 20] finite_not_less [OF ok(7), of "1 / 2"]
    by blast
  then show "\<exists>pts opts.
         gpxData = Some pts \<and> opts = form_options fm \<and>
         r = generate lib \<lparr>caller_points = pts, caller_options = opts\<rparr> \<and>
         isFinite (vertical opts) \<and> Num 1 \<le> vertical opts \<and>
         isFinite (bedx opts) \<and> Num 20 \<le> bedx opts \<and>
         isFinite (bedy opts) \<and> Num 20 \<le> bedy opts \<and>
         isFinite (buffer opts) \<and> Num (1 / 2) \<le> buffer opts \<and>
         (projtype opts = 1 \<longrightarrow> \<not> blank (projection opts))"
    using pts r opts by blast
qed

theorem collectOptions_enforces_ranges_witness:
  "f_vertical low_vertical_form < Num 1 \<and>
   collectOptions low_vertical_form = None \<and>
   generateModel sample_proj4 (Some sample_track) low_vertical_form = None \<and>
   f_proj blank_projection_form = 1 \<and>
   collectOptions blank_projection_form = None \<and>
   collectOptions valid_form = Some (form_options valid_form) \<and>
   generateModel sample_proj4 (Some sample_track) valid_form =
     Some (generate sample_proj4
             \<lparr>caller_points = sample_track, caller_options = form_options valid_form\<rparr>)"
proof -
  have low: "f_vertical low_vertical_form < Num 1"
    by (simp add: low_vertical_form_def)
  have bl: "f_proj blank_projection_form = 1"
    "list_all is_white_space (f_projection blank_projection_form)"
    by (simp_all add: blank_projection_form_def is_white_space_def)
  have valid: "\<not> (\<not> isFinite (f_vertical valid_form) \<or> f_vertical valid_form < Num 1 \<or>
       \<not> isFinite (f_width valid_form) \<or> f_width valid_form < Num 20 \<or>
       \<not> isFinite (f_depth valid_form) \<or> f_depth valid_form < Num 20 \<or>
       \<not> isFinite (f_pathWidth valid_form) \<or> f_pathWidth valid_form < Num 1 \<or>
       (f_proj valid_form = 1 \<and> list_all is_white_space (f_projection valid_form)))"
    by (simp add: valid_form_def low_vertical_form_def)
  from collectOptions_enforces_ranges [of low_vertical_form sample_proj4 "Some sample_track"] low
  have 1: "collectOptions low_vertical_form = None"
    "generateModel sample_proj4 (Some sample_track) low_vertical_form = None"
    by blast+
  from collectOptions_enforces_ranges [of blank_projection_form sample_proj4 "Some sample_track"] bl
  have 2: "collectOptions blank_projection_form = None"
    by blast
  from collectOptions_enforces_ranges [of valid_form sample_proj4 "Some sample_track"] valid
  have "collectOptions valid_form \<noteq> None"
    by blast
  then obtain opts where o: "collectOptions valid_form = Some opts"
    by auto
  then obtain r where r: "generateModel sample_proj4 (Some sample_track) valid_form = Some r"
    by (simp add: generateModel_def)
  from collectOptions_enforces_ranges [of valid_form sample_proj4 "Some sample_track"] r
  have 3: "r = generate sample_proj4
             \<lparr>caller_points = sample_track, caller_options = form_options valid_form\<rparr>"
    by auto
  have "opts = form_options valid_form"
    using o by (simp add: collectOptions_def Let_def split: if_splits)
  then show ?thesis
    using low bl(1) 1 2 o r 3 by simp
qed

section \<open>Markers on tracks of short segments\<close>

text \<open>
  When every segment distance is a finite number between 0 and the marker interval
  \<open>I\<close>, the scan loop keeps \<open>md\<close> below \<open>I\<close>, the cumulative distance is
  \<open>md\<close> plus \<open>I\<close> times the number of markers, and the \<open>k\<close>-th marker is
  stored with the position \<open>k I\<close>.
\<close>

lemma scan_step_marker_invariant:
  assumes I: "0 < I" "markerInterval opts = Num I"
    and seg: "distVincenty (c1 (lastpt st)) (c0 (lastpt st)) (c1 p) (c0 p) = Num x"
      "0 \<le> x" "x \<le> I"
    and st: "cd st = Num c" "md st = Num m" "0 \<le> m" "m < I" "c = m + real M * I"
      "map pos (markerObjs st) = map (\<lambda>k. Num (real k * I)) [1..<Suc M]"
      "totaldist st = Num t"
  shows "\<exists>m' M'. lastpt (scan_step opts prev i p st) = p \<and>
           cd (scan_step opts prev i p st) = Num (c + x) \<and>
           totaldist (scan_step opts prev i p st) = Num (t + x) \<and>
           md (scan_step opts prev i p st) = Num m' \<and> 0 \<le> m' \<and> m' < I \<and>
           c + x = m' + real M' * I \<and>
           map pos (markerObjs (scan_step opts prev i p st)) =
             map (\<lambda>k. Num (real k * I)) [1..<Suc M']"
proof (cases "I \<le> m + x")
  case True
  have "c + x - (x - (I - m)) = real (Suc M) * I"
    using st(5) by (simp add: algebra_simps)
  then have "map pos (markerObjs (scan_step opts prev i p st)) =
      map (\<lambda>k. Num (real k * I)) [1..<Suc (Suc M)]"
    using True I seg(1) st(1,2,6) by (simp add: scan_step_def Let_def)
  moreover have "md (scan_step opts prev i p st) = Num (m + x - I)"
    using True I seg(1) st(1,2) by (simp add: scan_step_def Let_def algebra_simps)
  moreover have "c + x = (m + x - I) + real (Suc M) * I"
    using st(5) by (simp add: algebra_simps)
  moreover have "0 \<le> m + x - I" "m + x - I < I"
    using True seg(3) st(4) by simp_all
  moreover have "lastpt (scan_step opts prev i p st) = p"
    "cd (scan_step opts prev i p st) = Num (c + x)"
    "totaldist (scan_step opts prev i p st) = Num (t + x)"
    using seg(1) st(1,7) by (simp_all add: scan_step_def Let_def)
  ultimately show ?thesis by blast
next
  case False
  have "markerObjs (scan_step opts prev i p st) = markerObjs st"
    "md (scan_step opts prev i p st) = Num (m + x)"
    "lastpt (scan_step opts prev i p st) = p"
    "cd (scan_step opts prev i p st) = Num (c + x)"
    "totaldist (scan_step opts prev i p st) = Num (t + x)"
    using False I seg(1) st(1,2,7) by (simp_all add: scan_step_def Let_def)
  moreover have "c + x = (m + x) + real M * I"
    using st(5) by simp
  moreover have "0 \<le> m + x" "m + x < I"
    using False seg(2) st(3) by simp_all
  ultimately show ?thesis
    using st(6) by metis
qed

lemma scan_loop_marker_invariant:
  assumes I: "0 < I" "markerInterval opts = Num I"
    and ds: "segment_distances (lastpt st) rest = map Num ds" "\<forall>x\<in>set ds. 0 \<le> x \<and> x \<le> I"
    and st: "cd st = Num c" "md st = Num m" "0 \<le> m" "m < I" "c = m + real M * I"
      "map pos (markerObjs st) = map (\<lambda>k. Num (real k * I)) [1..<Suc M]"
      "totaldist st = Num t"
  shows "\<exists>m' M'. totaldist (scan_loop opts prev i rest st) = Num (t + sum_list ds) \<and>
           0 \<le> m' \<and> m' < I \<and> c + sum_list ds = m' + real M' * I \<and>
           map pos (markerObjs (scan_loop opts prev i rest st)) =
             map (\<lambda>k. Num (real k * I)) [1..<Suc M']"
  using ds st
proof (induction rest arbitrary: prev i st ds c m M t)
  case Nil
  then show ?case by auto
next
  case (Cons p rest)
  from Cons.prems(1) obtain x xs where dsx: "ds = x # xs"
    and x: "distVincenty (c1 (lastpt st)) (c0 (lastpt st)) (c1 p) (c0 p) = Num x"
    and xs: "segment_distances p rest = map Num xs"
    by (cases ds) auto
  have xr: "0 \<le> x" "x \<le> I" and xsr: "\<forall>y\<in>set xs. 0 \<le> y \<and> y \<le> I"
    using Cons.prems(2) dsx by simp_all
  define st1 where "st1 = scan_step opts prev i p st"
  from scan_step_marker_invariant [OF I x xr Cons.prems(3-9), of prev i]
  obtain m1 M1 where s1: "lastpt st1 = p" "cd st1 = Num (c + x)" "totaldist st1 = Num (t + x)"
    "md st1 = Num m1" "0 \<le> m1" "m1 < I" "c + x = m1 + real M1 * I"
    "map pos (markerObjs st1) = map (\<lambda>k. Num (real k * I)) [1..<Suc M1]"
    unfolding st1_def by blast
  have xs': "segment_distances (lastpt st1) rest = map Num xs"
    using xs s1(1) by simp
  from Cons.IH [OF xs' xsr s1(2) s1(4) s1(5) s1(6) s1(7) s1(8) s1(3), of p "i + 1"]
  show ?case
    by (simp add: dsx st1_def add.assoc)
qed

text \<open>
  On a track whose segment distances are finite numbers between 0 and \<open>L / N\<close> and sum
  to \<open>L > 0\<close>, a scan with \<open>markerInterval = L / N\<close> finds the total distance
  \<open>L\<close> and stores exactly \<open>N\<close> markers, the \<open>k\<close>-th with position
  \<open>k L / N\<close>.
\<close>

lemma short_segments_markers:
  assumes "0 < L" and "0 < N"
    and "markerInterval opts = Num (L / real N)"
    and "segment_distances p0 rest = map Num ds"
    and "\<forall>x\<in>set ds. 0 \<le> x \<and> x \<le> L / real N"
    and "sum_list ds = L"
  shows "totaldist (scan_points_loop opts p0 rest) = Num L \<and>
         map pos (markerObjs (scan_points_loop opts p0 rest)) =
           map (\<lambda>k. Num (real k * (L / real N))) [1..<Suc N]"
proof -
  define I where "I = L / real N"
  have I: "0 < I"
    using assms(1,2) by (simp add: I_def)
  have NI: "real N * I = L"
    using assms(2) by (simp add: I_def)
  have init: "segment_distances (lastpt (scan_init p0)) rest = map Num ds"
    "cd (scan_init p0) = Num 0" "md (scan_init p0) = Num 0"
    "map pos (markerObjs (scan_init p0)) = map (\<lambda>k. Num (real k * I)) [1..<Suc 0]"
    "totaldist (scan_init p0) = Num 0"
    using assms(4) by (simp_all add: scan_init_def)
  have "(0::real) = 0 + real (0::nat) * I" by simp
  from scan_loop_marker_invariant [OF I assms(3) [folded I_def] init(1)
      assms(5) [folded I_def] init(2) init(3) order_refl I this init(4) init(5), of p0 1]
  obtain m' M' where tot: "totaldist (scan_points_loop opts p0 rest) = Num (0 + sum_list ds)"
    and m': "0 \<le> m'" "m' < I" and eq: "0 + sum_list ds = m' + real M' * I"
    and ms: "map pos (markerObjs (scan_points_loop opts p0 rest)) =
             map (\<lambda>k. Num (real k * I)) [1..<Suc M']"
    unfolding scan_points_loop_def by blast
  have eq': "real N * I = m' + real M' * I"
    using eq assms(6) NI by simp
  have "M' = N"
  proof (rule ccontr)
    assume ne: "M' \<noteq> N"
    show False
    proof (cases "M' < N")
      case True
      then have "real M' + 1 \<le> real N" by simp
      then have "(real M' + 1) * I \<le> real N * I"
        using I by (intro mult_right_mono) simp_all
      then show False using eq' m' by (simp add: algebra_simps)
    next
      case False
      with ne have "real N + 1 \<le> real M'" by simp
      then have "(real N + 1) * I \<le> real M' * I"
        using I by (intro mult_right_mono) simp_all
      then show False using eq' m' I by (simp add: algebra_simps)
    qed
  qed
  then show ?thesis
    using tot ms assms(6) by (simp add: I_def)
qed

text \<open>
  The sample track is such a track for \<open>N = 1\<close>: its single segment is as long as the
  interval, and the one marker is stored with the position \<open>L\<close>.
\<close>

lemma short_segments_markers_sample:
  "map pos (markerObjs (scan_points_loop
      (sample_options\<lparr>markerInterval := Num (quarter_meridian / real (1::nat))\<rparr>)
      (Num 0, Num 0, Num 0) [(Num 0, Num 90, Num 0)])) = [Num quarter_meridian]"
proof -
  have "segment_distances (Num 0, Num 0, Num 0) [(Num 0, Num 90, Num 0)] =
          map Num [quarter_meridian]"
    by (simp add: distVincenty_to_pole)
  from short_segments_markers [OF quarter_meridian_pos _ _ this, of 1
      "sample_options\<lparr>markerInterval := Num (quarter_meridian / real (1::nat))\<rparr>"]
  show ?thesis
    using quarter_meridian_pos by simp
qed

end
